theory Spec2Isabelle
  imports Complex_Main "HOL-Library.Sublist" "HOL-Library.Multiset"
begin

section \<open>Data model (internal/models/job.go)\<close>

text \<open>
  Go's \<open>int\<close> is a 64-bit two's-complement integer.  It is modelled by \<open>int\<close>, and the
  wrap-around is written out with \<open>wrap64\<close> wherever the source adds or multiplies values
  that a caller controls.  \<open>float64\<close> is modelled by \<open>real\<close> (exact arithmetic, no rounding),
  \<open>time.Time\<close> and \<open>time.Duration\<close> by an \<open>int\<close> count of nanoseconds, a Go \<open>error\<close> by
  \<open>string option\<close> (\<open>None\<close> is \<open>nil\<close>), and a \<open>*bool\<close> by \<open>bool option\<close>.
\<close>

definition wrap64 :: "int \<Rightarrow> int" where
  "wrap64 x = (x + 2 ^ 63) mod 2 ^ 64 - 2 ^ 63"

record Job =
  ID :: string
  Title :: string
  Company :: string
  Location :: string
  Description :: string
  Requirements :: "string list"
  Skills :: "string list"
  SalaryMin :: int
  SalaryMax :: int
  SalaryCurrency :: string
  DegreeRequired :: bool
  ExperienceLevel :: string
  RemoteOption :: string
  PostedDate :: int
  URL :: string
  Source :: string
  CompanySize :: string
  Industry :: string
  Benefits :: "string list"

text \<open>
  \<open>SearchFilters\<close>.  Several of its fields share their name with a field of \<open>Job\<close>;
  every field of the filters therefore carries the prefix \<open>f\<close>.
\<close>

record SearchFilters =
  fJobTitle :: string
  fKeywords :: "string list"
  fLocation :: string
  fLocations :: "string list"
  fRemoteOnly :: bool
  fMinSalary :: int
  fMaxSalary :: int
  fExperienceLevel :: string
  fDegreeRequired :: "bool option"
  fSkills :: "string list"
  fCompanySize :: string
  fIndustry :: string
  fJobCategory :: string
  fJobSites :: "string list"
  fLimit :: int
  fOffset :: int

text \<open>
  \<open>SalaryRange\<close>; \<open>Min\<close> and \<open>Max\<close> are constants of HOL, so its fields carry the
  prefix \<open>rg\<close>.
\<close>

record SalaryRange =
  rgMin :: int
  rgMax :: int
  rgMedian :: real
  rgP25 :: real
  rgP75 :: real

text \<open>\<open>SkillCount\<close> and \<open>CompanyCount\<close> are both a name with its count.\<close>

type_synonym SkillCount = "string \<times> int"
type_synonym CompanyCount = "string \<times> int"

record JobAnalytics =
  TotalJobs :: int
  AverageSalary :: real
  aSalaryRange :: SalaryRange
  TopSkills :: "SkillCount list"
  TopCompanies :: "CompanyCount list"
  ExperienceLevels :: "string \<rightharpoonup> int"
  RemoteOptions :: "string \<rightharpoonup> int"
  DegreeRequirements :: "string \<rightharpoonup> int"
  LocationDistribution :: "string \<rightharpoonup> int"
  IndustryDistribution :: "string \<rightharpoonup> int"

record SearchResponse =
  rJobs :: "Job list"
  rTotal :: int
  rAnalytics :: JobAnalytics
  rFilters :: SearchFilters

record ScrapingResult =
  srJobs :: "Job list"
  srSource :: string
  srError :: "string option"

text \<open>The zero values of \<open>Job\<close> and \<open>SearchFilters\<close> (every field unset).\<close>

definition zero_Job :: Job where
  "zero_Job = \<lparr>ID = [], Title = [], Company = [], Location = [], Description = [],
     Requirements = [], Skills = [], SalaryMin = 0, SalaryMax = 0, SalaryCurrency = [],
     DegreeRequired = False, ExperienceLevel = [], RemoteOption = [], PostedDate = 0,
     URL = [], Source = [], CompanySize = [], Industry = [], Benefits = []\<rparr>"

definition zero_SearchFilters :: SearchFilters where
  "zero_SearchFilters = \<lparr>fJobTitle = [], fKeywords = [], fLocation = [], fLocations = [],
     fRemoteOnly = False, fMinSalary = 0, fMaxSalary = 0, fExperienceLevel = [],
     fDegreeRequired = None, fSkills = [], fCompanySize = [], fIndustry = [],
     fJobCategory = [], fJobSites = [], fLimit = 0, fOffset = 0\<rparr>"

text \<open>A runtime panic of the Go program.\<close>

datatype panic = SliceBoundsOutOfRange | IndexOutOfRange | IntegerDivideByZero


section \<open>ScraperManager (internal/scraper/base.go)\<close>

text \<open>
  A \<open>JobScraper\<close> is its name and what its \<open>Scrape\<close> returns for given filters (under
  the context of the run): the records and the error.
\<close>

record JobScraper =
  Name :: string
  Scrape :: "SearchFilters \<Rightarrow> Job list \<times> string option"

text \<open>
  \<open>ScrapeAll\<close> starts one goroutine per scraper; goroutine \<open>i\<close> writes \<open>results[i]\<close>
  only, and the function returns after all of them have finished.  The slice it returns
  is therefore, whatever the interleaving, the list of the scrapers' outcomes in the
  order of \<open>sm.scrapers\<close>.
\<close>

definition ScrapeAll :: "JobScraper list \<Rightarrow> SearchFilters \<Rightarrow> ScrapingResult list" where
  "ScrapeAll scrapers filters =
     map (\<lambda>s. \<lparr>srJobs = fst (Scrape s filters), srSource = Name s,
                srError = snd (Scrape s filters)\<rparr>) scrapers"

fun GetAllJobs_loop :: "Job list \<Rightarrow> ScrapingResult list \<Rightarrow> Job list" where
  "GetAllJobs_loop allJobs [] = allJobs"
| "GetAllJobs_loop allJobs (result # results) =
     GetAllJobs_loop (if srError result = None then allJobs @ srJobs result else allJobs) results"

definition GetAllJobs :: "ScrapingResult list \<Rightarrow> Job list" where
  "GetAllJobs results = GetAllJobs_loop [] results"


section \<open>InMemoryStorage (storage)\<close>

record InMemoryStorage =
  jobs :: "Job list"

definition NewInMemoryStorage :: InMemoryStorage where
  "NewInMemoryStorage = \<lparr>jobs = []\<rparr>"

subsection \<open>Store\<close>

text \<open>
  \<open>existingURLs\<close> is a \<open>map[string]bool\<close>: reading a missing key gives \<open>false\<close>, so the
  map is the function from a URL to its flag.
\<close>

definition existingURLs_of :: "Job list \<Rightarrow> string \<Rightarrow> bool" where
  "existingURLs_of js = foldl (\<lambda>m job. m(URL job := True)) (\<lambda>_. False) js"

fun Store_loop :: "(string \<Rightarrow> bool) \<Rightarrow> Job list \<Rightarrow> Job list \<Rightarrow> Job list" where
  "Store_loop existingURLs sjobs [] = sjobs"
| "Store_loop existingURLs sjobs (job # rest) =
     (if \<not> existingURLs (URL job)
      then Store_loop (existingURLs(URL job := True)) (sjobs @ [job]) rest
      else Store_loop existingURLs sjobs rest)"

text \<open>\<open>Store\<close> returns its error (always \<open>nil\<close>) and the storage after the call.\<close>

definition Store :: "InMemoryStorage \<Rightarrow> Job list \<Rightarrow> string option \<times> InMemoryStorage" where
  "Store s js = (None, s\<lparr>jobs := Store_loop (existingURLs_of (jobs s)) (jobs s) js\<rparr>)"

text \<open>A sequence of \<open>Store\<close> calls, one per batch.\<close>

definition Store_all :: "InMemoryStorage \<Rightarrow> Job list list \<Rightarrow> InMemoryStorage" where
  "Store_all s batches = foldl (\<lambda>st b. snd (Store st b)) s batches"


subsection \<open>Library functions of Go used by the storage\<close>

text \<open>
  Strings are byte lists.  \<open>strings.ToLower\<close> is modelled on ASCII: the letters \<open>A\<close> to
  \<open>Z\<close> are mapped to \<open>a\<close> to \<open>z\<close> and every other byte is kept.  \<open>strings.EqualFold\<close> is
  equality of the lowered strings.
\<close>

definition lower_char :: "char \<Rightarrow> char" where
  "lower_char c =
     (let n = (of_char c :: nat) in if 65 \<le> n \<and> n \<le> 90 then char_of (n + 32) else c)"

definition ToLower :: "string \<Rightarrow> string" where
  "ToLower s = map lower_char s"

definition EqualFold :: "string \<Rightarrow> string \<Rightarrow> bool" where
  "EqualFold s t = (ToLower s = ToLower t)"

fun Contains :: "string \<Rightarrow> string \<Rightarrow> bool" where
  "Contains [] substr = (substr = [])"
| "Contains (c # s) substr = (prefix substr (c # s) \<or> Contains s substr)"

fun Join :: "string list \<Rightarrow> string \<Rightarrow> string" where
  "Join [] sep = []"
| "Join [x] sep = x"
| "Join (x # y # xs) sep = x @ sep @ Join (y # xs) sep"

text \<open>
  \<open>sort.Slice\<close> promises a permutation ordered by its \<open>less\<close> function (\<open>lessf\<close> here,
  \<open>less\<close> being a constant of HOL) and nothing about the order of elements that it does
  not separate.  It is modelled by its insertion sort: each element in turn moves left
  while it is less than its left neighbour (\<open>sort_insert\<close> works on the reversed sorted
  prefix).
\<close>

fun sort_insert :: "('a \<Rightarrow> 'a \<Rightarrow> bool) \<Rightarrow> 'a \<Rightarrow> 'a list \<Rightarrow> 'a list" where
  "sort_insert lessf x [] = [x]"
| "sort_insert lessf x (y # ys) =
     (if lessf x y then y # sort_insert lessf x ys else x # y # ys)"

definition sort_Slice :: "('a \<Rightarrow> 'a \<Rightarrow> bool) \<Rightarrow> 'a list \<Rightarrow> 'a list" where
  "sort_Slice lessf xs = rev (foldl (\<lambda>racc x. sort_insert lessf x racc) [] xs)"

text \<open>
  The slice expression \<open>xs[low:high]\<close> and the index expression \<open>xs[i]\<close>.  Go allows
  \<open>high\<close> up to the capacity; here \<open>high\<close> never exceeds the length when the expression
  is reached.
\<close>

definition slice :: "'a list \<Rightarrow> int \<Rightarrow> int \<Rightarrow> panic + 'a list" where
  "slice xs low high =
     (if 0 \<le> low \<and> low \<le> high \<and> high \<le> int (length xs)
      then Inr (take (nat (high - low)) (drop (nat low) xs))
      else Inl SliceBoundsOutOfRange)"

definition index_at :: "'a list \<Rightarrow> int \<Rightarrow> panic + 'a" where
  "index_at xs i = (if 0 \<le> i \<and> i < int (length xs) then Inr (xs ! nat i) else Inl IndexOutOfRange)"

text \<open>The conversion \<open>int(x)\<close> of a \<open>float64\<close>: truncation towards zero.\<close>

definition go_trunc :: "real \<Rightarrow> int" where
  "go_trunc x = (if 0 \<le> x then \<lfloor>x\<rfloor> else \<lceil>x\<rceil>)"

text \<open>Integer division of Go truncates towards zero (the divisor is not zero).\<close>

definition go_div :: "int \<Rightarrow> int \<Rightarrow> int" where
  "go_div a b = wrap64 (sgn a * sgn b * (\<bar>a\<bar> div \<bar>b\<bar>))"

definition bind_panic :: "panic + 'a \<Rightarrow> ('a \<Rightarrow> panic + 'b) \<Rightarrow> panic + 'b" where
  "bind_panic r k = (case r of Inl p \<Rightarrow> Inl p | Inr v \<Rightarrow> k v)"

subsection \<open>matchesFilters\<close>

fun keyword_found :: "string \<Rightarrow> string list \<Rightarrow> bool" where
  "keyword_found jobText [] = False"
| "keyword_found jobText (keyword # rest) =
     (if Contains jobText (ToLower keyword) then True else keyword_found jobText rest)"

fun locationMatch :: "string \<Rightarrow> string list \<Rightarrow> bool" where
  "locationMatch loc [] = False"
| "locationMatch loc (filterLocation # rest) =
     (if Contains (ToLower loc) (ToLower filterLocation) then True else locationMatch loc rest)"

definition jobSkills_of :: "string list \<Rightarrow> string \<Rightarrow> bool" where
  "jobSkills_of skills = foldl (\<lambda>m skill. m(ToLower skill := True)) (\<lambda>_. False) skills"

fun has_required_skills :: "(string \<Rightarrow> bool) \<Rightarrow> string list \<Rightarrow> bool" where
  "has_required_skills jobSkills [] = True"
| "has_required_skills jobSkills (requiredSkill # rest) =
     (if \<not> jobSkills (ToLower requiredSkill) then False else has_required_skills jobSkills rest)"

definition jobText_of :: "Job \<Rightarrow> string" where
  "jobText_of job = ToLower (Title job @ '' '' @ Description job @ '' '' @ Join (Skills job) '' '')"

definition matchesFilters :: "Job \<Rightarrow> SearchFilters \<Rightarrow> bool" where
  "matchesFilters job filters =
     (if fJobTitle filters \<noteq> [] \<and> \<not> Contains (ToLower (Title job)) (ToLower (fJobTitle filters))
      then False
      else if fKeywords filters \<noteq> [] \<and> \<not> keyword_found (jobText_of job) (fKeywords filters)
      then False
      else if fLocation filters \<noteq> [] \<and>
              \<not> Contains (ToLower (Location job)) (ToLower (fLocation filters))
      then False
      else if fLocations filters \<noteq> [] \<and> \<not> locationMatch (Location job) (fLocations filters)
      then False
      else if fRemoteOnly filters \<and> \<not> Contains (ToLower (RemoteOption job)) ''remote''
      then False
      else if fMinSalary filters > 0 \<and> (SalaryMin job = 0 \<or> SalaryMin job < fMinSalary filters)
      then False
      else if fMaxSalary filters > 0 \<and> (SalaryMax job = 0 \<or> SalaryMax job > fMaxSalary filters)
      then False
      else if fExperienceLevel filters \<noteq> [] \<and>
              \<not> EqualFold (ExperienceLevel job) (fExperienceLevel filters)
      then False
      else if fDegreeRequired filters \<noteq> None \<and>
              DegreeRequired job \<noteq> the (fDegreeRequired filters)
      then False
      else if fSkills filters \<noteq> [] \<and>
              \<not> has_required_skills (jobSkills_of (Skills job)) (fSkills filters)
      then False
      else True)"

subsection \<open>GetAnalytics\<close>

text \<open>\<open>m[k]++\<close> on a \<open>map[string]int\<close>: a missing key counts as 0.\<close>

definition incr :: "(string \<rightharpoonup> int) \<Rightarrow> string \<Rightarrow> (string \<rightharpoonup> int)" where
  "incr m k = m(k \<mapsto> (case m k of None \<Rightarrow> 0 | Some c \<Rightarrow> c) + 1)"

text \<open>The maps and the salary sample that the loop over the jobs builds.\<close>

record analytics_acc =
  accExperienceLevels :: "string \<rightharpoonup> int"
  accRemoteOptions :: "string \<rightharpoonup> int"
  accDegreeRequirements :: "string \<rightharpoonup> int"
  accLocationDistribution :: "string \<rightharpoonup> int"
  accIndustryDistribution :: "string \<rightharpoonup> int"
  skillCounts :: "string \<rightharpoonup> int"
  companyCounts :: "string \<rightharpoonup> int"
  salaries :: "real list"

definition init_acc :: analytics_acc where
  "init_acc = \<lparr>accExperienceLevels = Map.empty, accRemoteOptions = Map.empty,
     accDegreeRequirements = Map.empty, accLocationDistribution = Map.empty,
     accIndustryDistribution = Map.empty, skillCounts = Map.empty,
     companyCounts = Map.empty, salaries = []\<rparr>"

text \<open>The representative salary of a job, as the list the loop appends to the sample.\<close>

definition salary_of :: "Job \<Rightarrow> real list" where
  "salary_of job =
     (if SalaryMin job > 0 \<and> SalaryMax job > 0
      then [real_of_int (wrap64 (SalaryMin job + SalaryMax job)) / 2]
      else if SalaryMin job > 0 then [real_of_int (SalaryMin job)]
      else if SalaryMax job > 0 then [real_of_int (SalaryMax job)]
      else [])"

definition analytics_step :: "analytics_acc \<Rightarrow> Job \<Rightarrow> analytics_acc" where
  "analytics_step a job =
     \<lparr>accExperienceLevels =
        (if ExperienceLevel job \<noteq> [] then incr (accExperienceLevels a) (ExperienceLevel job)
         else accExperienceLevels a),
      accRemoteOptions =
        (if RemoteOption job \<noteq> [] then incr (accRemoteOptions a) (RemoteOption job)
         else accRemoteOptions a),
      accDegreeRequirements =
        (if DegreeRequired job then incr (accDegreeRequirements a) ''Required''
         else incr (accDegreeRequirements a) ''Not Required''),
      accLocationDistribution =
        (if Location job \<noteq> [] then incr (accLocationDistribution a) (Location job)
         else accLocationDistribution a),
      accIndustryDistribution =
        (if Industry job \<noteq> [] then incr (accIndustryDistribution a) (Industry job)
         else accIndustryDistribution a),
      skillCounts = foldl incr (skillCounts a) (Skills job),
      companyCounts =
        (if Company job \<noteq> [] then incr (companyCounts a) (Company job) else companyCounts a),
      salaries = salaries a @ salary_of job\<rparr>"

definition percentile :: "real list \<Rightarrow> real \<Rightarrow> panic + real" where
  "percentile sortedData p =
     (let n = int (length sortedData) in
      if n = 0 then Inr 0
      else if n = 1 then index_at sortedData 0
      else
        let index = (p / 100) * real_of_int (n - 1);
            lower = go_trunc index;
            upper = lower + 1
        in if upper \<ge> n then index_at sortedData (n - 1)
           else
             let weight = index - real_of_int lower
             in bind_panic (index_at sortedData lower) (\<lambda>lo.
                bind_panic (index_at sortedData upper) (\<lambda>hi.
                Inr (lo * (1 - weight) + hi * weight))))"

text \<open>
  \<open>getTopCounts\<close> ranges over a Go map, and the order in which a \<open>range\<close> loop visits the
  keys of a map is chosen by the runtime, anew for every loop.  The order is the
  parameter \<open>iter\<close>; \<open>range_order counts iter\<close> says that \<open>iter\<close> is an order the runtime
  may choose: every key of the map, once.  \<open>limit\<close> is the constant 10 at both calls.
\<close>

definition range_order :: "(string \<rightharpoonup> int) \<Rightarrow> string list \<Rightarrow> bool" where
  "range_order counts iter = (distinct iter \<and> set iter = dom counts)"

definition getTopCounts :: "string list \<Rightarrow> (string \<rightharpoonup> int) \<Rightarrow> nat \<Rightarrow> SkillCount list" where
  "getTopCounts iter counts limit =
     (let pairs = map (\<lambda>skill. (skill, case counts skill of None \<Rightarrow> 0 | Some c \<Rightarrow> c)) iter
      in take limit (sort_Slice (\<lambda>a b. snd a > snd b) pairs))"

definition getTopCompanies :: "string list \<Rightarrow> (string \<rightharpoonup> int) \<Rightarrow> nat \<Rightarrow> CompanyCount list" where
  "getTopCompanies iter counts limit =
     (let pairs = map (\<lambda>company. (company, case counts company of None \<Rightarrow> 0 | Some c \<Rightarrow> c)) iter
      in take limit (sort_Slice (\<lambda>a b. snd a > snd b) pairs))"

definition zero_SalaryRange :: SalaryRange where
  "zero_SalaryRange = \<lparr>rgMin = 0, rgMax = 0, rgMedian = 0, rgP25 = 0, rgP75 = 0\<rparr>"

definition zero_JobAnalytics :: JobAnalytics where
  "zero_JobAnalytics = \<lparr>TotalJobs = 0, AverageSalary = 0, aSalaryRange = zero_SalaryRange,
     TopSkills = [], TopCompanies = [], ExperienceLevels = Map.empty,
     RemoteOptions = Map.empty, DegreeRequirements = Map.empty,
     LocationDistribution = Map.empty, IndustryDistribution = Map.empty\<rparr>"

text \<open>The salary statistics: the average and the range, from the unsorted sample.\<close>

definition salary_stats :: "real list \<Rightarrow> panic + real \<times> SalaryRange" where
  "salary_stats sample =
     (if length sample > 0
      then
        let sorted = sort sample;
            sum = foldl (+) 0 sorted
        in bind_panic (index_at sorted 0) (\<lambda>lo.
           bind_panic (index_at sorted (int (length sorted) - 1)) (\<lambda>hi.
           bind_panic (percentile sorted 50) (\<lambda>med.
           bind_panic (percentile sorted 25) (\<lambda>p25.
           bind_panic (percentile sorted 75) (\<lambda>p75.
           Inr (sum / real (length sorted),
                \<lparr>rgMin = go_trunc lo, rgMax = go_trunc hi, rgMedian = med,
                 rgP25 = p25, rgP75 = p75\<rparr>))))))
      else Inr (0, zero_SalaryRange))"

text \<open>
  \<open>GetAnalytics\<close>, with the orders in which the runtime ranges over \<open>skillCounts\<close>
  and over \<open>companyCounts\<close>.
\<close>

definition GetAnalytics :: "string list \<Rightarrow> string list \<Rightarrow> Job list \<Rightarrow> panic + JobAnalytics" where
  "GetAnalytics skill_iter company_iter js =
     (if length js = 0 then Inr zero_JobAnalytics
      else
        let a = foldl analytics_step init_acc js
        in bind_panic (salary_stats (salaries a)) (\<lambda>(avg, rg).
           Inr \<lparr>TotalJobs = int (length js), AverageSalary = avg, aSalaryRange = rg,
                TopSkills = getTopCounts skill_iter (skillCounts a) 10,
                TopCompanies = getTopCompanies company_iter (companyCounts a) 10,
                ExperienceLevels = accExperienceLevels a,
                RemoteOptions = accRemoteOptions a,
                DegreeRequirements = accDegreeRequirements a,
                LocationDistribution = accLocationDistribution a,
                IndustryDistribution = accIndustryDistribution a\<rparr>))"

subsection \<open>Search\<close>

definition filteredJobs_of :: "InMemoryStorage \<Rightarrow> SearchFilters \<Rightarrow> Job list" where
  "filteredJobs_of s filters =
     sort_Slice (\<lambda>a b. PostedDate a > PostedDate b)
       (filter (\<lambda>job. matchesFilters job filters) (jobs s))"

definition Search ::
  "string list \<Rightarrow> string list \<Rightarrow> InMemoryStorage \<Rightarrow> SearchFilters \<Rightarrow> panic + SearchResponse" where
  "Search skill_iter company_iter s filters =
     (let filteredJobs = filteredJobs_of s filters;
          total = int (length filteredJobs);
          start = fOffset filters;
          endv = wrap64 (start + fLimit filters);
          endv = (if fLimit filters = 0 then total else endv);
          start = (if start > total then total else start);
          endv = (if endv > total then total else endv)
      in bind_panic (slice filteredJobs start endv) (\<lambda>paginatedJobs.
         bind_panic (GetAnalytics skill_iter company_iter filteredJobs) (\<lambda>analytics.
         Inr \<lparr>rJobs = paginatedJobs, rTotal = total, rAnalytics = analytics,
              rFilters = filters\<rparr>)))"


section \<open>RateLimiter (scraper)\<close>

record RateLimiter =
  rate :: int
  interval :: int
  tokens :: int
  lastTime :: int

text \<open>\<open>NewRateLimiter\<close>; \<open>now\<close> is what \<open>time.Now()\<close> returns.  It has no error result.\<close>

definition NewRateLimiter :: "int \<Rightarrow> int \<Rightarrow> int \<Rightarrow> RateLimiter" where
  "NewRateLimiter r i now = \<lparr>rate = r, interval = i, tokens = r, lastTime = now\<rparr>"

text \<open>
  The context of a call: the instant at which its \<open>Done\<close> channel is closed, if ever
  (an instant that is not after the call is a context already cancelled), and its error.
\<close>

record Context =
  done_at :: "int option"
  ctx_err :: string

text \<open>How a call of \<open>Wait\<close> ends: it returns its error, or it panics.\<close>

datatype wait_outcome = Returned "string option" | Panicked panic

text \<open>
  The token count after the refill of lines 33 to 42, where \<open>interval\<close> is not zero.
\<close>

definition refilled :: "RateLimiter \<Rightarrow> int \<Rightarrow> int" where
  "refilled rl now =
     (let elapsed = now - lastTime rl;
          tokensToAdd = wrap64 (go_div elapsed (interval rl) * rate rl);
          t = wrap64 (tokens rl + tokensToAdd)
      in if t > rate rl then rate rl else t)"

text \<open>
  The \<open>select\<close> of \<open>Wait\<close> takes the case that is ready first: the timer is ready
  \<open>waitTime\<close> after the call (at once when \<open>waitTime\<close> is not positive), the context when
  it is done.  When both are ready at the same instant the runtime picks one; \<open>pick_ctx\<close>
  is its pick.
\<close>

definition ctx_first :: "Context \<Rightarrow> int \<Rightarrow> int \<Rightarrow> bool \<Rightarrow> bool" where
  "ctx_first ctx now waitTime pick_ctx =
     (case done_at ctx of
        None \<Rightarrow> False
      | Some t \<Rightarrow>
          let tc = max now t; tt = max now (now + waitTime)
          in tc < tt \<or> (tc = tt \<and> pick_ctx))"

definition Wait :: "RateLimiter \<Rightarrow> int \<Rightarrow> Context \<Rightarrow> bool \<Rightarrow> wait_outcome \<times> RateLimiter" where
  "Wait rl now ctx pick_ctx =
     (if interval rl = 0 then (Panicked IntegerDivideByZero, rl)
      else
        let rl = rl\<lparr>tokens := refilled rl now, lastTime := now\<rparr>
        in if tokens rl > 0 then (Returned None, rl\<lparr>tokens := tokens rl - 1\<rparr>)
           else if rate rl = 0 then (Panicked IntegerDivideByZero, rl)
           else
             let waitTime = go_div (interval rl) (rate rl)
             in if ctx_first ctx now waitTime pick_ctx then (Returned (Some (ctx_err ctx)), rl)
                else (Returned None, rl\<lparr>tokens := rate rl - 1\<rparr>))"

text \<open>
  The refill as the specification words it, with the division and the product in exact
  arithmetic: \<open>min(capacity, tokens + floor(elapsed / interval * capacity))\<close>.
\<close>

definition refill_spec :: "int \<Rightarrow> int \<Rightarrow> int \<Rightarrow> int \<Rightarrow> int" where
  "refill_spec capacity ival toks elapsed =
     min capacity (toks + \<lfloor>real_of_int elapsed / real_of_int ival * real_of_int capacity\<rfloor>)"

text \<open>
  The percentile as the specification words it: linear interpolation at
  \<open>index = p/100*(n-1)\<close> between the values at the floor and at the ceiling of the index.
\<close>

definition percentile_spec :: "real list \<Rightarrow> real \<Rightarrow> real" where
  "percentile_spec sample p =
     (let index = p / 100 * real (length sample - 1);
          lo = sample ! nat \<lfloor>index\<rfloor>;
          hi = sample ! nat \<lceil>index\<rceil>
      in lo + (index - real_of_int \<lfloor>index\<rfloor>) * (hi - lo))"


section \<open>Merging the agents' outcomes\<close>

lemma GetAllJobs_loop_eq:
  "GetAllJobs_loop acc rs = acc @ concat (map srJobs (filter (\<lambda>r. srError r = None) rs))"
  by (induction rs arbitrary: acc) simp_all

lemma GetAllJobs_eq:
  "GetAllJobs rs = concat (map srJobs (filter (\<lambda>r. srError r = None) rs))"
  by (simp add: GetAllJobs_def GetAllJobs_loop_eq)


text \<open>
  C8: \<open>GetAllJobs\<close> returns exactly the concatenation of the records of the outcomes that
  carry no error, in the order of the outcomes, which \<open>ScrapeAll\<close> makes the order in
  which the agents were launched.  Nothing is deduplicated: the length of the result is
  the sum of the lengths of the successful outcomes.  An outcome that carries an error
  contributes nothing and leaves the records of the outcomes around it in place.
\<close>

theorem GetAllJobs_merge:
  "GetAllJobs rs = concat (map srJobs (filter (\<lambda>r. srError r = None) rs))
   \<and> GetAllJobs (ScrapeAll scrapers f) =
       concat (map (\<lambda>s. fst (Scrape s f)) (filter (\<lambda>s. snd (Scrape s f) = None) scrapers))
   \<and> length (GetAllJobs rs) =
       sum_list (map (\<lambda>r. if srError r = None then length (srJobs r) else 0) rs)
   \<and> GetAllJobs (rs1 @ [r] @ rs2) =
       (if srError r = None then GetAllJobs rs1 @ srJobs r @ GetAllJobs rs2
        else GetAllJobs rs1 @ GetAllJobs rs2)"
proof -
  have merge: "GetAllJobs xs = concat (map srJobs (filter (\<lambda>r. srError r = None) xs))" for xs
    by (rule GetAllJobs_eq)
  have launched: "GetAllJobs (ScrapeAll scrapers f) =
      concat (map (\<lambda>s. fst (Scrape s f)) (filter (\<lambda>s. snd (Scrape s f) = None) scrapers))"
    unfolding merge ScrapeAll_def by (induction scrapers) simp_all
  have len: "length (GetAllJobs rs) =
      sum_list (map (\<lambda>r. if srError r = None then length (srJobs r) else 0) rs)"
    unfolding merge by (induction rs) simp_all
  have split: "GetAllJobs (rs1 @ [r] @ rs2) =
      (if srError r = None then GetAllJobs rs1 @ srJobs r @ GetAllJobs rs2
       else GetAllJobs rs1 @ GetAllJobs rs2)"
    unfolding merge by simp
  from merge launched len split show ?thesis by blast
qed

text \<open>
  Three agents of which the second fails: the merged result is the records of the first
  followed by the records of the third.
\<close>

lemma GetAllJobs_three_agents:
  "GetAllJobs [\<lparr>srJobs = a, srSource = n1, srError = None\<rparr>,
               \<lparr>srJobs = b, srSource = n2, srError = Some e\<rparr>,
               \<lparr>srJobs = c, srSource = n3, srError = None\<rparr>] = a @ c"
  by (simp add: GetAllJobs_def)


section \<open>Store keeps the URLs of the storage distinct\<close>

lemma existingURLs_fold:
  "foldl (\<lambda>m job. m(URL job := True)) m0 js = (\<lambda>u. m0 u \<or> u \<in> URL ` set js)"
  by (induction js arbitrary: m0) (auto simp: fun_eq_iff)

lemma existingURLs_of_eq: "existingURLs_of js = (\<lambda>u. u \<in> URL ` set js)"
  by (simp add: existingURLs_of_def existingURLs_fold)

lemma existingURLs_upd:
  "(\<lambda>u. u \<in> URL ` set sj)(URL j := True) = (\<lambda>u. u \<in> URL ` set (sj @ [j]))"
  by (auto simp: fun_eq_iff)

lemma Store_loop_Cons:
  "Store_loop (\<lambda>u. u \<in> URL ` set sj) sj (j # js) =
     (if URL j \<in> URL ` set sj then Store_loop (\<lambda>u. u \<in> URL ` set sj) sj js
      else Store_loop (\<lambda>u. u \<in> URL ` set (sj @ [j])) (sj @ [j]) js)"
  by (simp add: existingURLs_upd del: fun_upd_apply)

lemma Store_loop_prefix: "prefix sj (Store_loop ex sj js)"
proof (induction js arbitrary: ex sj)
  case Nil
  show ?case by simp
next
  case (Cons j js)
  show ?case
  proof (cases "ex (URL j)")
    case True
    then show ?thesis using Cons.IH by simp
  next
    case False
    have "prefix sj (sj @ [j])" by simp
    moreover have "prefix (sj @ [j]) (Store_loop (ex(URL j := True)) (sj @ [j]) js)"
      by (rule Cons.IH)
    ultimately have "prefix sj (Store_loop (ex(URL j := True)) (sj @ [j]) js)"
      by (rule prefix_order.trans)
    with False show ?thesis by simp
  qed
qed

lemma Store_loop_distinct:
  "distinct (map URL sj) \<Longrightarrow> distinct (map URL (Store_loop (\<lambda>u. u \<in> URL ` set sj) sj js))"
proof (induction js arbitrary: sj)
  case Nil
  then show ?case by simp
next
  case (Cons j js)
  show ?case
  proof (cases "URL j \<in> URL ` set sj")
    case True
    then show ?thesis using Cons by (simp only: Store_loop_Cons if_True)
  next
    case False
    then have "distinct (map URL (sj @ [j]))" using Cons.prems by auto
    then show ?thesis using False Cons.IH [of "sj @ [j]"] by (simp only: Store_loop_Cons if_False)
  qed
qed

lemma find_append:
  "find P (xs @ ys) = (case find P xs of None \<Rightarrow> find P ys | Some x \<Rightarrow> Some x)"
  by (induction xs) simp_all

lemma find_URL_None: "find (\<lambda>j. URL j = u) xs = None \<longleftrightarrow> u \<notin> URL ` set xs"
  by (auto simp: find_None_iff)

lemma Store_loop_first_wins:
  "find (\<lambda>j. URL j = u) (Store_loop (\<lambda>u. u \<in> URL ` set sj) sj js) =
   find (\<lambda>j. URL j = u) (sj @ js)"
proof (induction js arbitrary: sj)
  case Nil
  show ?case by simp
next
  case (Cons j js)
  show ?case
  proof (cases "URL j \<in> URL ` set sj")
    case True
    have "find (\<lambda>j. URL j = u) (sj @ j # js) = find (\<lambda>j. URL j = u) (sj @ js)"
    proof (cases "find (\<lambda>j. URL j = u) sj")
      case None
      then have "u \<notin> URL ` set sj" by (simp add: find_URL_None)
      with True have "URL j \<noteq> u" by auto
      with None show ?thesis by (simp add: find_append)
    next
      case (Some x)
      then show ?thesis by (simp add: find_append)
    qed
    with True Cons.IH [of sj] show ?thesis by (simp only: Store_loop_Cons if_True)
  next
    case False
    with Cons.IH [of "sj @ [j]"] show ?thesis by (simp only: Store_loop_Cons if_False) simp
  qed
qed

lemma Store_loop_append:
  "Store_loop (\<lambda>u. u \<in> URL ` set sj) sj (a @ b) =
   Store_loop (\<lambda>u. u \<in> URL ` set (Store_loop (\<lambda>u. u \<in> URL ` set sj) sj a))
     (Store_loop (\<lambda>u. u \<in> URL ` set sj) sj a) b"
proof (induction a arbitrary: sj)
  case Nil
  show ?case by simp
next
  case (Cons j a)
  show ?case
  proof (cases "URL j \<in> URL ` set sj")
    case True
    with Cons.IH [of sj] show ?thesis by (simp only: append_Cons Store_loop_Cons if_True)
  next
    case False
    with Cons.IH [of "sj @ [j]"] show ?thesis by (simp only: append_Cons Store_loop_Cons if_False)
  qed
qed

lemma jobs_Store:
  "jobs (snd (Store s js)) = Store_loop (\<lambda>u. u \<in> URL ` set (jobs s)) (jobs s) js"
  by (simp add: Store_def existingURLs_of_eq)

lemma Store_twice: "snd (Store (snd (Store s a)) b) = snd (Store s (a @ b))"
proof -
  have "jobs (snd (Store (snd (Store s a)) b)) = jobs (snd (Store s (a @ b)))"
    by (simp only: jobs_Store Store_loop_append)
  then show ?thesis by (simp add: Store_def)
qed

lemma Store_Nil: "snd (Store s []) = s"
  by (simp add: Store_def)

lemma Store_all_concat: "Store_all s batches = snd (Store s (concat batches))"
proof (induction batches arbitrary: s)
  case Nil
  show ?case by (simp add: Store_all_def Store_Nil)
next
  case (Cons b bs)
  have "Store_all s (b # bs) = Store_all (snd (Store s b)) bs"
    by (simp add: Store_all_def)
  also have "\<dots> = snd (Store (snd (Store s b)) (concat bs))" by (rule Cons.IH)
  also have "\<dots> = snd (Store s (concat (b # bs)))" by (simp add: Store_twice)
  finally show ?case .
qed

lemma Store_distinct:
  "distinct (map URL (jobs s)) \<Longrightarrow> distinct (map URL (jobs (snd (Store s js))))"
  by (simp only: jobs_Store Store_loop_distinct)

text \<open>
  C1: after any sequence of \<open>Store\<close> calls on a new storage, whatever the batches, no two
  records of the storage have the same URL, and a call of \<open>Store\<close> keeps the URLs
  distinct.  \<open>Store\<close> always returns \<open>nil\<close>.  The records already stored stay, unchanged
  and in place, as a prefix of the new content.  Looking a URL up after the call finds
  the first record with that URL among the stored records followed by the input: the
  first entry wins.  Storing one record appends it when its URL is new and changes
  nothing when its URL is present.  Storing the batches one by one gives the storage
  that storing them all at once gives.
\<close>

theorem Store_url_unique:
  "distinct (map URL (jobs (Store_all NewInMemoryStorage batches)))
   \<and> (distinct (map URL (jobs s)) \<longrightarrow> distinct (map URL (jobs (snd (Store s js)))))
   \<and> fst (Store s js) = None
   \<and> prefix (jobs s) (jobs (snd (Store s js)))
   \<and> find (\<lambda>j. URL j = u) (jobs (snd (Store s js))) = find (\<lambda>j. URL j = u) (jobs s @ js)
   \<and> jobs (snd (Store s [job])) =
       (if URL job \<in> URL ` set (jobs s) then jobs s else jobs s @ [job])
   \<and> Store_all s batches = snd (Store s (concat batches))"
proof -
  have reach: "distinct (map URL (jobs (Store_all NewInMemoryStorage batches)))"
  proof -
    have "distinct (map URL (jobs NewInMemoryStorage))"
      by (simp add: NewInMemoryStorage_def)
    then show ?thesis
      unfolding Store_all_concat by (rule Store_distinct)
  qed
  have keep: "distinct (map URL (jobs s)) \<longrightarrow> distinct (map URL (jobs (snd (Store s js))))"
    using Store_distinct by blast
  have ok: "fst (Store s js) = None"
    by (simp add: Store_def)
  have pre: "prefix (jobs s) (jobs (snd (Store s js)))"
    unfolding jobs_Store by (rule Store_loop_prefix)
  have first: "find (\<lambda>j. URL j = u) (jobs (snd (Store s js))) =
      find (\<lambda>j. URL j = u) (jobs s @ js)"
    unfolding jobs_Store by (rule Store_loop_first_wins)
  have one: "jobs (snd (Store s [job])) =
      (if URL job \<in> URL ` set (jobs s) then jobs s else jobs s @ [job])"
    unfolding jobs_Store by (simp only: Store_loop_Cons Store_loop.simps)
  from reach keep ok pre first one Store_all_concat show ?thesis by blast
qed

theorem Store_url_unique_witness:
  "distinct (map URL (jobs \<lparr>jobs = [zero_Job\<lparr>URL := ''a''\<rparr>]\<rparr>))
   \<and> distinct (map URL (jobs (snd (Store \<lparr>jobs = [zero_Job\<lparr>URL := ''a''\<rparr>]\<rparr>
         [zero_Job\<lparr>URL := ''a'', Title := ''x''\<rparr>, zero_Job\<lparr>URL := ''b''\<rparr>]))))
   \<and> jobs (snd (Store \<lparr>jobs = [zero_Job\<lparr>URL := ''a''\<rparr>]\<rparr>
         [zero_Job\<lparr>URL := ''a'', Title := ''x''\<rparr>, zero_Job\<lparr>URL := ''b''\<rparr>])) =
       [zero_Job\<lparr>URL := ''a''\<rparr>, zero_Job\<lparr>URL := ''b''\<rparr>]"
  using Store_url_unique [where s = "\<lparr>jobs = [zero_Job\<lparr>URL := ''a''\<rparr>]\<rparr>"
      and js = "[zero_Job\<lparr>URL := ''a'', Title := ''x''\<rparr>, zero_Job\<lparr>URL := ''b''\<rparr>]"
      and batches = "[]" and u = "''a''" and job = zero_Job]
  by (simp add: Store_def existingURLs_of_def zero_Job_def)


section \<open>The rate limiter\<close>

lemma wrap64_id: "- (2 ^ 63) \<le> x \<Longrightarrow> x < 2 ^ 63 \<Longrightarrow> wrap64 x = x"
  by (simp add: wrap64_def)

lemma go_div_nonneg:
  assumes "0 \<le> a" "a < 2 ^ 63" "0 < b"
  shows "go_div a b = a div b"
proof -
  have e: "sgn a * sgn b * (\<bar>a\<bar> div \<bar>b\<bar>) = a div b"
    using assms by (cases "a = 0") (simp_all add: sgn_if)
  have "0 \<le> a div b" using assms by (simp add: pos_imp_zdiv_nonneg_iff)
  moreover have "a div b \<le> a" using assms by (cases "a = 0") (simp_all add: int_div_le_self)
  ultimately have "wrap64 (a div b) = a div b"
    using assms by (intro wrap64_id) simp_all
  then show ?thesis unfolding go_div_def e .
qed

lemma refilled_exact:
  assumes "lastTime rl \<le> now" "now - lastTime rl < 2 ^ 63" "0 < interval rl"
    "0 \<le> rate rl" "0 \<le> tokens rl" "tokens rl \<le> rate rl"
    "(now - lastTime rl) div interval rl * rate rl + rate rl < 2 ^ 63"
  shows "refilled rl now = min (rate rl) (tokens rl + (now - lastTime rl) div interval rl * rate rl)"
proof -
  define q where "q = (now - lastTime rl) div interval rl"
  have d: "go_div (now - lastTime rl) (interval rl) = q"
    unfolding q_def using assms by (intro go_div_nonneg) simp_all
  have q0: "0 \<le> q" unfolding q_def using assms by (simp add: pos_imp_zdiv_nonneg_iff)
  then have m0: "0 \<le> q * rate rl" using assms by simp
  have m1: "q * rate rl + rate rl < 2 ^ 63" using assms unfolding q_def by simp
  have w1: "wrap64 (q * rate rl) = q * rate rl"
    using m0 m1 assms by (intro wrap64_id) simp_all
  have w2: "wrap64 (tokens rl + q * rate rl) = tokens rl + q * rate rl"
    using m0 m1 assms by (intro wrap64_id) simp_all
  show ?thesis
    unfolding refilled_def Let_def d w1 w2 q_def [symmetric] by (simp add: min_def)
qed

lemma wrap64_range: "- (2 ^ 63) \<le> wrap64 x \<and> wrap64 x < 2 ^ 63"
  by (simp add: wrap64_def)

text \<open>The token count never exceeds the rate, whatever the call does.\<close>

lemma refilled_le_rate: "refilled rl now \<le> rate rl"
  by (simp add: refilled_def Let_def)

lemma Wait_tokens_le_rate:
  "tokens rl \<le> rate rl \<Longrightarrow> tokens (snd (Wait rl now ctx pick_ctx)) \<le> rate rl"
  using refilled_le_rate [of rl now] by (simp add: Wait_def Let_def)

lemma Wait_rate: "rate (snd (Wait rl now ctx pick_ctx)) = rate rl"
  by (simp add: Wait_def Let_def)

text \<open>
  On an empty bucket the time to wait is \<open>interval / rate\<close>, in integer division.  When
  the timer fires first the call does not test the bucket again: it sets the token count
  to \<open>rate - 1\<close> and returns.
\<close>

lemma Wait_empty_bucket:
  "interval rl \<noteq> 0 \<Longrightarrow> rate rl \<noteq> 0 \<Longrightarrow> refilled rl now \<le> 0 \<Longrightarrow>
   Wait rl now ctx pick_ctx =
     (if ctx_first ctx now (go_div (interval rl) (rate rl)) pick_ctx
      then (Returned (Some (ctx_err ctx)), rl\<lparr>tokens := refilled rl now, lastTime := now\<rparr>)
      else (Returned None, rl\<lparr>tokens := rate rl - 1, lastTime := now\<rparr>))"
  by (simp add: Wait_def Let_def)

text \<open>
  C10: on a limiter whose interval is not zero, when the refill leaves at least one
  token, \<open>Wait\<close> returns \<open>nil\<close> and takes one token, whatever the context is (also one
  that was cancelled before the call); and \<open>Wait\<close> returns the error of the context only
  when the refill left no token.
\<close>

theorem Wait_token_available:
  "interval rl \<noteq> 0 \<Longrightarrow>
   (0 < refilled rl now \<longrightarrow>
      Wait rl now ctx pick_ctx =
        (Returned None, rl\<lparr>tokens := refilled rl now - 1, lastTime := now\<rparr>))
   \<and> (fst (Wait rl now ctx pick_ctx) = Returned (Some e) \<longrightarrow> refilled rl now \<le> 0)"
proof (intro conjI impI)
  assume i: "interval rl \<noteq> 0" and t: "0 < refilled rl now"
  then show "Wait rl now ctx pick_ctx =
      (Returned None, rl\<lparr>tokens := refilled rl now - 1, lastTime := now\<rparr>)"
    by (simp add: Wait_def Let_def)
next
  assume i: "interval rl \<noteq> 0" and r: "fst (Wait rl now ctx pick_ctx) = Returned (Some e)"
  show "refilled rl now \<le> 0"
  proof (rule ccontr)
    assume "\<not> refilled rl now \<le> 0"
    with i have "fst (Wait rl now ctx pick_ctx) = Returned None"
      by (simp add: Wait_def Let_def)
    with r show False by simp
  qed
qed

theorem Wait_token_available_witness:
  "interval (NewRateLimiter 5 1000000000 0) \<noteq> 0
   \<and> 0 < refilled (NewRateLimiter 5 1000000000 0) 7
   \<and> Wait (NewRateLimiter 5 1000000000 0) 7
        \<lparr>done_at = Some 3, ctx_err = ''context canceled''\<rparr> True =
       (Returned None, \<lparr>rate = 5, interval = 1000000000, tokens = 4, lastTime = 7\<rparr>)"
proof -
  have i: "interval (NewRateLimiter 5 1000000000 0) \<noteq> 0"
    by (simp add: NewRateLimiter_def)
  have r: "refilled (NewRateLimiter 5 1000000000 0) 7 = 5"
    by (simp add: NewRateLimiter_def refilled_def go_div_def wrap64_def)
  have "Wait (NewRateLimiter 5 1000000000 0) 7
        \<lparr>done_at = Some 3, ctx_err = ''context canceled''\<rparr> True =
       (Returned None, (NewRateLimiter 5 1000000000 0)\<lparr>tokens := 5 - 1, lastTime := 7\<rparr>)"
    using Wait_token_available [OF i, of 7 "\<lparr>done_at = Some 3, ctx_err = ''context canceled''\<rparr>"
        True "''context canceled''"]
    unfolding r by simp
  with i r show ?thesis by (simp add: NewRateLimiter_def)
qed

text \<open>
  The same cancelled context on an empty bucket: the call returns the error of the
  context and takes no token.
\<close>

lemma Wait_cancelled_empty:
  "Wait \<lparr>rate = 5, interval = 1000000000, tokens = 0, lastTime = 0\<rparr> 7
     \<lparr>done_at = Some 3, ctx_err = ''context canceled''\<rparr> True =
   (Returned (Some ''context canceled''),
    \<lparr>rate = 5, interval = 1000000000, tokens = 0, lastTime = 7\<rparr>)"
  by (simp add: Wait_def refilled_def go_div_def wrap64_def ctx_first_def Let_def)

text \<open>
  C4: a limiter of 5 tokens per second with an empty bucket, asked half a second after
  its last acquisition.  The refill of the specification adds \<open>floor(0.5 * 5) = 2\<close>
  tokens.  The code divides the elapsed time by the interval in integer arithmetic
  before it multiplies by the rate, adds no token, waits \<open>interval / rate\<close> and then sets
  the token count to \<open>rate - 1\<close>.
\<close>

theorem Wait_refill_truncates:
  "refilled \<lparr>rate = 5, interval = 1000000000, tokens = 0, lastTime = 0\<rparr> 500000000 = 0
   \<and> refill_spec 5 1000000000 0 500000000 = 2
   \<and> Wait \<lparr>rate = 5, interval = 1000000000, tokens = 0, lastTime = 0\<rparr> 500000000
        \<lparr>done_at = None, ctx_err = []\<rparr> False =
      (Returned None, \<lparr>rate = 5, interval = 1000000000, tokens = 4, lastTime = 500000000\<rparr>)"
  by (simp add: Wait_def refilled_def refill_spec_def go_div_def wrap64_def ctx_first_def Let_def)

text \<open>
  A limiter with rate 0 has no token, and every \<open>Wait\<close> on it panics with a division by
  zero: at the refill when the interval is zero too, at the wait time otherwise.
\<close>

lemma Wait_zero_rate_panics:
  "fst (Wait (NewRateLimiter 0 i now) now' ctx pick_ctx) = Panicked IntegerDivideByZero"
  by (simp add: NewRateLimiter_def Wait_def refilled_def wrap64_def Let_def)

text \<open>
  C5, amended: \<open>NewRateLimiter\<close> has no error result and never fails; for every rate,
  zero included, it returns a limiter with that rate, a full bucket and the time of the
  call.  The limiter it returns for a zero rate is not usable: it holds no token, and no
  \<open>Wait\<close> on it returns success.
\<close>

theorem NewRateLimiter_never_fails:
  "NewRateLimiter r i now = \<lparr>rate = r, interval = i, tokens = r, lastTime = now\<rparr>
   \<and> tokens (NewRateLimiter 0 i now) = 0
   \<and> fst (Wait (NewRateLimiter 0 i now) now' ctx pick_ctx) \<noteq> Returned None"
proof -
  have made: "NewRateLimiter r i now = \<lparr>rate = r, interval = i, tokens = r, lastTime = now\<rparr>"
    by (simp add: NewRateLimiter_def)
  have empty: "tokens (NewRateLimiter 0 i now) = 0"
    by (simp add: NewRateLimiter_def)
  have "fst (Wait (NewRateLimiter 0 i now) now' ctx pick_ctx) = Panicked IntegerDivideByZero"
    by (rule Wait_zero_rate_panics)
  then have unusable: "fst (Wait (NewRateLimiter 0 i now) now' ctx pick_ctx) \<noteq> Returned None"
    by simp
  from made empty unusable show ?thesis by blast
qed

text \<open>
  C5 as stated fails: the construction with rate 0 (and an interval of one second)
  does not fail, it returns a limiter.
\<close>

theorem NewRateLimiter_zero_rate_constructs:
  "NewRateLimiter 0 1000000000 0 =
     \<lparr>rate = 0, interval = 1000000000, tokens = 0, lastTime = 0\<rparr>"
  by (simp add: NewRateLimiter_def)


section \<open>Sorting, filtering and the shape of a search result\<close>

lemma mset_sort_insert: "mset (sort_insert lessf x ys) = add_mset x (mset ys)"
  by (induction ys) simp_all

lemma mset_sort_fold:
  "mset (foldl (\<lambda>racc x. sort_insert lessf x racc) acc xs) = mset acc + mset xs"
  by (induction xs arbitrary: acc) (simp_all add: mset_sort_insert)

lemma mset_sort_Slice: "mset (sort_Slice lessf xs) = mset xs"
  by (simp add: sort_Slice_def mset_sort_fold)

lemma set_sort_Slice: "set (sort_Slice lessf xs) = set xs"
  using mset_sort_Slice [of lessf xs] by (metis set_mset_mset)

lemma length_sort_Slice: "length (sort_Slice lessf xs) = length xs"
  using mset_sort_Slice [of lessf xs] by (metis size_mset)

lemma Contains_sublist: "Contains s substr \<longleftrightarrow> sublist substr s"
  by (induction s) (simp_all add: sublist_Cons_right)

lemma keyword_found_iff:
  "keyword_found jobText ks \<longleftrightarrow> (\<exists>k\<in>set ks. Contains jobText (ToLower k))"
  by (induction ks) simp_all

lemma locationMatch_iff:
  "locationMatch loc ls \<longleftrightarrow> (\<exists>l\<in>set ls. Contains (ToLower loc) (ToLower l))"
  by (induction ls) simp_all

lemma jobSkills_fold:
  "foldl (\<lambda>m skill. m(ToLower skill := True)) m0 skills =
     (\<lambda>x. m0 x \<or> x \<in> ToLower ` set skills)"
  by (induction skills arbitrary: m0) (auto simp: fun_eq_iff)

lemma jobSkills_of_eq: "jobSkills_of skills = (\<lambda>x. x \<in> ToLower ` set skills)"
  by (simp add: jobSkills_of_def jobSkills_fold)

lemma has_required_skills_iff:
  "has_required_skills jobSkills rs \<longleftrightarrow> (\<forall>r\<in>set rs. jobSkills (ToLower r))"
  by (induction rs) simp_all

lemma if_False_else: "(if c then False else b) \<longleftrightarrow> \<not> c \<and> b"
  by simp

lemma matchesFilters_conj:
  "matchesFilters job f \<longleftrightarrow>
     \<not> (fJobTitle f \<noteq> [] \<and> \<not> Contains (ToLower (Title job)) (ToLower (fJobTitle f)))
     \<and> \<not> (fKeywords f \<noteq> [] \<and> \<not> keyword_found (jobText_of job) (fKeywords f))
     \<and> \<not> (fLocation f \<noteq> [] \<and> \<not> Contains (ToLower (Location job)) (ToLower (fLocation f)))
     \<and> \<not> (fLocations f \<noteq> [] \<and> \<not> locationMatch (Location job) (fLocations f))
     \<and> \<not> (fRemoteOnly f \<and> \<not> Contains (ToLower (RemoteOption job)) ''remote'')
     \<and> \<not> (fMinSalary f > 0 \<and> (SalaryMin job = 0 \<or> SalaryMin job < fMinSalary f))
     \<and> \<not> (fMaxSalary f > 0 \<and> (SalaryMax job = 0 \<or> SalaryMax job > fMaxSalary f))
     \<and> \<not> (fExperienceLevel f \<noteq> [] \<and> \<not> EqualFold (ExperienceLevel job) (fExperienceLevel f))
     \<and> \<not> (fDegreeRequired f \<noteq> None \<and> DegreeRequired job \<noteq> the (fDegreeRequired f))
     \<and> \<not> (fSkills f \<noteq> [] \<and> \<not> has_required_skills (jobSkills_of (Skills job)) (fSkills f))"
  unfolding matchesFilters_def if_False_else by (simp only: simp_thms)

lemma slice_subset: "slice xs lo hi = Inr ys \<Longrightarrow> set ys \<subseteq> set xs"
  by (auto simp: slice_def split: if_splits dest: in_set_takeD in_set_dropD)

lemma bind_panic_Inr: "bind_panic m k = Inr r \<longleftrightarrow> (\<exists>v. m = Inr v \<and> k v = Inr r)"
  by (cases m) (simp_all add: bind_panic_def)

lemma Search_Inr_D:
  assumes "Search si ci s f = Inr r"
  shows "\<exists>lo hi. slice (filteredJobs_of s f) lo hi = Inr (rJobs r)"
    and "GetAnalytics si ci (filteredJobs_of s f) = Inr (rAnalytics r)"
    and "rTotal r = int (length (filteredJobs_of s f))"
    and "rFilters r = f"
proof -
  from assms obtain p a where
    p: "slice (filteredJobs_of s f)
          (if fOffset f > int (length (filteredJobs_of s f))
           then int (length (filteredJobs_of s f)) else fOffset f)
          (if (if fLimit f = 0 then int (length (filteredJobs_of s f))
               else wrap64 (fOffset f + fLimit f)) > int (length (filteredJobs_of s f))
           then int (length (filteredJobs_of s f))
           else (if fLimit f = 0 then int (length (filteredJobs_of s f))
                 else wrap64 (fOffset f + fLimit f))) = Inr p"
    and a: "GetAnalytics si ci (filteredJobs_of s f) = Inr a"
    and r: "r = \<lparr>rJobs = p, rTotal = int (length (filteredJobs_of s f)), rAnalytics = a,
              rFilters = f\<rparr>"
    unfolding Search_def Let_def bind_panic_Inr by blast
  from p r show "\<exists>lo hi. slice (filteredJobs_of s f) lo hi = Inr (rJobs r)" by auto
  from a r show "GetAnalytics si ci (filteredJobs_of s f) = Inr (rAnalytics r)" by simp
  from r show "rTotal r = int (length (filteredJobs_of s f))" by simp
  from r show "rFilters r = f" by simp
qed

lemma Search_rJobs_subset:
  assumes "Search si ci s f = Inr r"
  shows "set (rJobs r) \<subseteq> {job \<in> set (jobs s). matchesFilters job f}"
proof -
  from Search_Inr_D(1) [OF assms] obtain lo hi
    where "slice (filteredJobs_of s f) lo hi = Inr (rJobs r)" by blast
  then have "set (rJobs r) \<subseteq> set (filteredJobs_of s f)" by (rule slice_subset)
  then show ?thesis by (auto simp: filteredJobs_of_def set_sort_Slice)
qed


section \<open>Salary percentiles\<close>

lemma bind_panic_Inr_left [simp]: "bind_panic (Inr v) k = k v"
  by (simp add: bind_panic_def)

lemma index_at_Inr: "i < length xs \<Longrightarrow> index_at xs (int i) = Inr (xs ! i)"
  by (simp add: index_at_def)

lemma percentile_Nil: "percentile [] p = Inr 0"
  by (simp add: percentile_def)

lemma percentile_single: "percentile [x] p = Inr x"
  by (simp add: percentile_def index_at_def)

lemma percentile_interpolates:
  assumes n: "2 \<le> length xs" and p0: "0 \<le> p" and p1: "p < 100"
  shows "percentile xs p =
     Inr (xs ! nat \<lfloor>p / 100 * real (length xs - 1)\<rfloor> *
            (1 - (p / 100 * real (length xs - 1) - real_of_int \<lfloor>p / 100 * real (length xs - 1)\<rfloor>))
          + xs ! (nat \<lfloor>p / 100 * real (length xs - 1)\<rfloor> + 1) *
            (p / 100 * real (length xs - 1) - real_of_int \<lfloor>p / 100 * real (length xs - 1)\<rfloor>))"
proof -
  define idx where "idx = p / 100 * real (length xs - 1)"
  have m: "0 < real (length xs - 1)" using n by simp
  have i0: "0 \<le> idx" unfolding idx_def using p0 by simp
  have "p / 100 < 1" using p1 by simp
  then have "p / 100 * real (length xs - 1) < 1 * real (length xs - 1)"
    using m by (rule mult_strict_right_mono)
  then have i1: "idx < real (length xs - 1)" unfolding idx_def by (simp only: mult_1_left)
  have f0: "0 \<le> \<lfloor>idx\<rfloor>" using i0 by simp
  have "\<lfloor>idx\<rfloor> < int (length xs - 1)" using i1 by (simp add: floor_less_iff)
  then have f1: "\<lfloor>idx\<rfloor> + 1 < int (length xs)" using n by linarith
  have conv: "real_of_int (int (length xs) - 1) = real (length xs - 1)" using n by simp
  have lo: "index_at xs \<lfloor>idx\<rfloor> = Inr (xs ! nat \<lfloor>idx\<rfloor>)"
    using f0 f1 by (simp add: index_at_def)
  have hi: "index_at xs (\<lfloor>idx\<rfloor> + 1) = Inr (xs ! (nat \<lfloor>idx\<rfloor> + 1))"
    using f0 f1 by (simp add: index_at_def nat_add_distrib)
  have n0: "int (length xs) \<noteq> 0" "int (length xs) \<noteq> 1" using n by auto
  have tr: "go_trunc idx = \<lfloor>idx\<rfloor>" using i0 by (simp add: go_trunc_def)
  have up: "\<not> int (length xs) \<le> \<lfloor>idx\<rfloor> + 1" using f1 by simp
  show ?thesis
    unfolding percentile_def Let_def conv idx_def [symmetric] tr
    using n0 up lo hi by simp
qed

lemma percentile_top:
  assumes n: "2 \<le> length xs"
  shows "percentile xs 100 = Inr (xs ! (length xs - 1))"
proof -
  have idx: "(100::real) / 100 * real_of_int (int (length xs) - 1) = real (length xs - 1)"
    using n by simp
  have tr: "go_trunc (real (length xs - 1)) = int (length xs - 1)"
    by (simp add: go_trunc_def)
  have n0: "int (length xs) \<noteq> 0" "int (length xs) \<noteq> 1" using n by auto
  have e: "int (length xs - 1) + 1 = int (length xs)" using n by linarith
  have "length xs - 1 < length xs" using n by linarith
  then have "index_at xs (int (length xs - 1)) = Inr (xs ! (length xs - 1))"
    by (rule index_at_Inr)
  moreover have "int (length xs - 1) = int (length xs) - 1" using n by linarith
  ultimately have l: "index_at xs (int (length xs) - 1) = Inr (xs ! (length xs - 1))"
    by simp
  have "percentile xs 100 = index_at xs (int (length xs) - 1)"
    unfolding percentile_def Let_def idx tr e using n0 by (simp only: if_False order_refl if_True)
  with l show ?thesis by simp
qed

lemma percentile_eq_spec:
  assumes ne: "xs \<noteq> []" and p0: "0 \<le> p" and p1: "p \<le> 100"
  shows "percentile xs p = Inr (percentile_spec xs p)"
proof (cases "length xs = 1")
  case True
  then obtain x where x: "xs = [x]" by (cases xs) simp_all
  show ?thesis unfolding x by (simp add: percentile_single percentile_spec_def)
next
  case False
  with ne have n: "2 \<le> length xs" by (cases xs) (simp_all add: Suc_le_eq)
  show ?thesis
  proof (cases "p = 100")
    case True
    have "percentile_spec xs 100 = xs ! (length xs - 1)"
      by (simp add: percentile_spec_def)
    with percentile_top [OF n] True show ?thesis by simp
  next
    case False
    with p1 have p2: "p < 100" by simp
    define idx where "idx = p / 100 * real (length xs - 1)"
    define w where "w = idx - real_of_int \<lfloor>idx\<rfloor>"
    have i0: "0 \<le> idx" unfolding idx_def using p0 by simp
    have code: "percentile xs p =
        Inr (xs ! nat \<lfloor>idx\<rfloor> * (1 - w) + xs ! (nat \<lfloor>idx\<rfloor> + 1) * w)"
      unfolding w_def idx_def by (rule percentile_interpolates [OF n p0 p2])
    have spec: "percentile_spec xs p =
        xs ! nat \<lfloor>idx\<rfloor> + w * (xs ! nat \<lceil>idx\<rceil> - xs ! nat \<lfloor>idx\<rfloor>)"
      unfolding percentile_spec_def Let_def w_def idx_def ..
    show ?thesis
    proof (cases "w = 0")
      case True
      with code spec show ?thesis by simp
    next
      case False
      then have "idx \<noteq> real_of_int \<lfloor>idx\<rfloor>" unfolding w_def by simp
      then have "\<lceil>idx\<rceil> = \<lfloor>idx\<rfloor> + 1"
        by (simp only: ceiling_altdef if_False)
      moreover have "0 \<le> \<lfloor>idx\<rfloor>" using i0 by simp
      ultimately have "nat \<lceil>idx\<rceil> = nat \<lfloor>idx\<rfloor> + 1" by (simp add: nat_add_distrib)
      with code spec show ?thesis by (simp add: algebra_simps)
    qed
  qed
qed

lemma percentile_example:
  "percentile [60000, 80000, 100000, 120000] 50 = Inr 90000"
  "percentile [60000, 80000, 100000, 120000] 25 = Inr 75000"
  by (simp_all add: percentile_def index_at_def go_trunc_def Let_def)

lemma salaries_fold:
  "salaries (foldl analytics_step acc js) = salaries acc @ concat (map salary_of js)"
  by (induction js arbitrary: acc) (simp_all add: analytics_step_def)

lemma salaries_init: "salaries (foldl analytics_step init_acc js) = concat (map salary_of js)"
  by (simp add: salaries_fold init_acc_def)

lemma salary_stats_Nil: "salary_stats [] = Inr (0, zero_SalaryRange)"
  by (simp add: salary_stats_def)

lemma salary_stats_eq:
  assumes "sample \<noteq> []"
  shows "salary_stats sample =
     Inr (foldl (+) 0 (sort sample) / real (length sample),
          \<lparr>rgMin = go_trunc (sort sample ! 0),
           rgMax = go_trunc (sort sample ! (length sample - 1)),
           rgMedian = percentile_spec (sort sample) 50,
           rgP25 = percentile_spec (sort sample) 25,
           rgP75 = percentile_spec (sort sample) 75\<rparr>)"
proof -
  define sorted where "sorted = sort sample"
  have len: "length sorted = length sample" by (simp add: sorted_def)
  with assms have ne: "sorted \<noteq> []" by auto
  have lo: "index_at sorted 0 = Inr (sorted ! 0)"
    using ne index_at_Inr [of 0 sorted] by simp
  have "length sorted - 1 < length sorted" using ne by simp
  then have "index_at sorted (int (length sorted - 1)) = Inr (sorted ! (length sorted - 1))"
    by (rule index_at_Inr)
  moreover have "int (length sorted - 1) = int (length sorted) - 1"
    using ne by (cases sorted) simp_all
  ultimately have hi: "index_at sorted (int (length sorted) - 1) = Inr (sorted ! (length sorted - 1))"
    by simp
  have p50: "percentile sorted 50 = Inr (percentile_spec sorted 50)"
    by (rule percentile_eq_spec [OF ne]) simp_all
  have p25: "percentile sorted 25 = Inr (percentile_spec sorted 25)"
    by (rule percentile_eq_spec [OF ne]) simp_all
  have p75: "percentile sorted 75 = Inr (percentile_spec sorted 75)"
    by (rule percentile_eq_spec [OF ne]) simp_all
  have pos: "length sample > 0" using assms by simp
  show ?thesis
    unfolding salary_stats_def Let_def sorted_def [symmetric]
    using pos by (simp add: lo hi [unfolded len] p50 p25 p75 len)
qed

lemma salary_stats_total: "\<exists>avg rg. salary_stats sample = Inr (avg, rg)"
  by (cases "sample = []") (simp_all add: salary_stats_Nil salary_stats_eq)

lemma GetAnalytics_Nil: "GetAnalytics si ci [] = Inr zero_JobAnalytics"
  by (simp add: GetAnalytics_def)

lemma GetAnalytics_Inr:
  assumes "js \<noteq> []" and "salary_stats (concat (map salary_of js)) = Inr (avg, rg)"
  shows "GetAnalytics si ci js =
     Inr \<lparr>TotalJobs = int (length js), AverageSalary = avg, aSalaryRange = rg,
          TopSkills = getTopCounts si (skillCounts (foldl analytics_step init_acc js)) 10,
          TopCompanies = getTopCompanies ci (companyCounts (foldl analytics_step init_acc js)) 10,
          ExperienceLevels = accExperienceLevels (foldl analytics_step init_acc js),
          RemoteOptions = accRemoteOptions (foldl analytics_step init_acc js),
          DegreeRequirements = accDegreeRequirements (foldl analytics_step init_acc js),
          LocationDistribution = accLocationDistribution (foldl analytics_step init_acc js),
          IndustryDistribution = accIndustryDistribution (foldl analytics_step init_acc js)\<rparr>"
  using assms by (simp add: GetAnalytics_def Let_def salaries_init)

lemma GetAnalytics_total: "\<exists>a. GetAnalytics si ci js = Inr a"
proof (cases "js = []")
  case True
  then show ?thesis by (simp add: GetAnalytics_Nil)
next
  case False
  obtain avg rg where "salary_stats (concat (map salary_of js)) = Inr (avg, rg)"
    using salary_stats_total by blast
  from GetAnalytics_Inr [OF False this] show ?thesis by blast
qed

lemma GetAnalytics_SalaryRange:
  assumes "GetAnalytics si ci js = Inr a" and "js \<noteq> []"
  shows "salary_stats (concat (map salary_of js)) = Inr (AverageSalary a, aSalaryRange a)"
proof -
  obtain avg rg where s: "salary_stats (concat (map salary_of js)) = Inr (avg, rg)"
    using salary_stats_total by blast
  from GetAnalytics_Inr [OF assms(2) s, of si ci] assms(1)
  have "AverageSalary a = avg" "aSalaryRange a = rg" by auto
  with s show ?thesis by simp
qed

text \<open>
  C2: \<open>GetAnalytics\<close> never panics.  Over the ascending-sorted sample of representative
  salaries, its median, 25th and 75th percentile are the linear interpolation at
  \<open>index = p/100*(n-1)\<close> between the values at the floor and at the ceiling of the index
  (\<open>percentile_spec\<close>); so is \<open>percentile\<close> for every \<open>p\<close> from 0 to 100 on a sample that
  is not empty.  A sample of one value gives that value, an empty sample leaves the
  salary range zero-valued, and the sample 60000, 80000, 100000, 120000 has the median
  90000 and the 25th percentile 75000.  (\<open>float64\<close> is read as exact real arithmetic.)
\<close>

theorem GetAnalytics_percentiles:
  "(\<exists>a. GetAnalytics si ci js = Inr a
      \<and> (concat (map salary_of js) = [] \<longrightarrow> aSalaryRange a = zero_SalaryRange)
      \<and> (concat (map salary_of js) \<noteq> [] \<longrightarrow>
            rgMedian (aSalaryRange a) = percentile_spec (sort (concat (map salary_of js))) 50
          \<and> rgP25 (aSalaryRange a) = percentile_spec (sort (concat (map salary_of js))) 25
          \<and> rgP75 (aSalaryRange a) = percentile_spec (sort (concat (map salary_of js))) 75)
      \<and> (\<forall>x. concat (map salary_of js) = [x] \<longrightarrow>
            rgMedian (aSalaryRange a) = x \<and> rgP25 (aSalaryRange a) = x
          \<and> rgP75 (aSalaryRange a) = x)
      \<and> (sort (concat (map salary_of js)) = [60000, 80000, 100000, 120000] \<longrightarrow>
            rgMedian (aSalaryRange a) = 90000 \<and> rgP25 (aSalaryRange a) = 75000))
   \<and> (xs \<noteq> [] \<and> 0 \<le> p \<and> p \<le> 100 \<longrightarrow> percentile xs p = Inr (percentile_spec xs p))
   \<and> percentile [x] p = Inr x
   \<and> percentile [] p = Inr 0"
proof -
  define sample where "sample = concat (map salary_of js)"
  obtain a where a: "GetAnalytics si ci js = Inr a"
    using GetAnalytics_total by blast
  have empty: "aSalaryRange a = zero_SalaryRange" if "sample = []"
  proof (cases "js = []")
    case True
    with a have "a = zero_JobAnalytics" by (simp add: GetAnalytics_Nil)
    then show ?thesis by (simp add: zero_JobAnalytics_def)
  next
    case False
    from GetAnalytics_SalaryRange [OF a False]
    have "salary_stats sample = Inr (AverageSalary a, aSalaryRange a)"
      unfolding sample_def .
    then show ?thesis unfolding that by (simp add: salary_stats_Nil)
  qed
  have range: "aSalaryRange a =
      \<lparr>rgMin = go_trunc (sort sample ! 0),
       rgMax = go_trunc (sort sample ! (length sample - 1)),
       rgMedian = percentile_spec (sort sample) 50,
       rgP25 = percentile_spec (sort sample) 25,
       rgP75 = percentile_spec (sort sample) 75\<rparr>" if ne: "sample \<noteq> []"
  proof -
    from ne have "js \<noteq> []" by (auto simp: sample_def)
    from GetAnalytics_SalaryRange [OF a this]
    have "salary_stats sample = Inr (AverageSalary a, aSalaryRange a)"
      unfolding sample_def .
    with salary_stats_eq [OF ne] show ?thesis by simp
  qed
  have interp: "rgMedian (aSalaryRange a) = percentile_spec (sort sample) 50
      \<and> rgP25 (aSalaryRange a) = percentile_spec (sort sample) 25
      \<and> rgP75 (aSalaryRange a) = percentile_spec (sort sample) 75" if "sample \<noteq> []"
    using range [OF that] by simp
  have single: "rgMedian (aSalaryRange a) = y \<and> rgP25 (aSalaryRange a) = y
      \<and> rgP75 (aSalaryRange a) = y" if "sample = [y]" for y
  proof -
    from that have "sample \<noteq> []" by simp
    from interp [OF this] that show ?thesis by (simp add: percentile_spec_def)
  qed
  have four: "rgMedian (aSalaryRange a) = 90000 \<and> rgP25 (aSalaryRange a) = 75000"
    if s: "sort sample = [60000, 80000, 100000, 120000]"
  proof -
    from s have "sample \<noteq> []" by auto
    from interp [OF this] show ?thesis
      unfolding s by (simp add: percentile_spec_def)
  qed
  have spec: "xs \<noteq> [] \<and> 0 \<le> p \<and> p \<le> 100 \<longrightarrow> percentile xs p = Inr (percentile_spec xs p)"
    using percentile_eq_spec by blast
  from a empty interp single four spec percentile_single percentile_Nil
  show ?thesis unfolding sample_def by blast
qed

theorem GetAnalytics_percentiles_witness:
  "sort (concat (map salary_of
      [zero_Job\<lparr>SalaryMin := 110000, SalaryMax := 130000\<rparr>, zero_Job\<lparr>SalaryMin := 80000\<rparr>,
       zero_Job\<lparr>SalaryMax := 60000\<rparr>, zero_Job\<lparr>SalaryMin := 90000, SalaryMax := 110000\<rparr>])) =
     [60000, 80000, 100000, 120000]
   \<and> (\<exists>a. GetAnalytics [] []
      [zero_Job\<lparr>SalaryMin := 110000, SalaryMax := 130000\<rparr>, zero_Job\<lparr>SalaryMin := 80000\<rparr>,
       zero_Job\<lparr>SalaryMax := 60000\<rparr>, zero_Job\<lparr>SalaryMin := 90000, SalaryMax := 110000\<rparr>] = Inr a
      \<and> rgMedian (aSalaryRange a) = 90000 \<and> rgP25 (aSalaryRange a) = 75000)
   \<and> percentile [60000, 80000, 100000, 120000] 50 = Inr 90000
   \<and> percentile [60000, 80000, 100000, 120000] 25 = Inr 75000"
proof -
  have s: "sort (concat (map salary_of
      [zero_Job\<lparr>SalaryMin := 110000, SalaryMax := 130000\<rparr>, zero_Job\<lparr>SalaryMin := 80000\<rparr>,
       zero_Job\<lparr>SalaryMax := 60000\<rparr>, zero_Job\<lparr>SalaryMin := 90000, SalaryMax := 110000\<rparr>])) =
     [60000, 80000, 100000, 120000]"
    by (simp add: salary_of_def zero_Job_def wrap64_def)
  note t = GetAnalytics_percentiles [of "[]" "[]"
      "[zero_Job\<lparr>SalaryMin := 110000, SalaryMax := 130000\<rparr>, zero_Job\<lparr>SalaryMin := 80000\<rparr>,
        zero_Job\<lparr>SalaryMax := 60000\<rparr>, zero_Job\<lparr>SalaryMin := 90000, SalaryMax := 110000\<rparr>]"
      "[60000, 80000, 100000, 120000]"]
  have e: "\<exists>a. GetAnalytics [] []
      [zero_Job\<lparr>SalaryMin := 110000, SalaryMax := 130000\<rparr>, zero_Job\<lparr>SalaryMin := 80000\<rparr>,
       zero_Job\<lparr>SalaryMax := 60000\<rparr>, zero_Job\<lparr>SalaryMin := 90000, SalaryMax := 110000\<rparr>] = Inr a
      \<and> rgMedian (aSalaryRange a) = 90000 \<and> rgP25 (aSalaryRange a) = 75000"
    using t s by blast
  have p50: "percentile [60000, 80000, 100000, 120000] 50 = Inr 90000"
    using t [of 50] by (simp add: percentile_spec_def)
  have p25: "percentile [60000, 80000, 100000, 120000] 25 = Inr 75000"
    using t [of 25] by (simp add: percentile_spec_def)
  from s e p50 p25 show ?thesis by blast
qed


section \<open>The salary, skills and keywords filters\<close>

lemma matchesFilters_salary:
  "matchesFilters job f \<Longrightarrow>
     (0 < fMinSalary f \<longrightarrow> SalaryMin job \<noteq> 0 \<and> fMinSalary f \<le> SalaryMin job)
     \<and> (0 < fMaxSalary f \<longrightarrow> SalaryMax job \<noteq> 0 \<and> SalaryMax job \<le> fMaxSalary f)"
  unfolding matchesFilters_conj by linarith

text \<open>
  C6: with a positive \<open>min_salary\<close>, a record whose \<open>salary_min\<close> is unset (0) or below
  the bound does not match the filters and is in no page that \<open>Search\<close> returns; with a
  positive \<open>max_salary\<close>, the same for a record whose \<open>salary_max\<close> is unset or above the
  bound.  A missing salary bound never passes the filter.
\<close>

theorem salary_filter_excludes:
  "(0 < fMinSalary f \<and> (SalaryMin job = 0 \<or> SalaryMin job < fMinSalary f) \<longrightarrow>
      \<not> matchesFilters job f \<and> (\<forall>r. Search si ci s f = Inr r \<longrightarrow> job \<notin> set (rJobs r)))
   \<and> (0 < fMaxSalary f \<and> (SalaryMax job = 0 \<or> fMaxSalary f < SalaryMax job) \<longrightarrow>
      \<not> matchesFilters job f \<and> (\<forall>r. Search si ci s f = Inr r \<longrightarrow> job \<notin> set (rJobs r)))"
proof -
  have page: "job \<notin> set (rJobs r)" if "\<not> matchesFilters job f" "Search si ci s f = Inr r" for r
    using Search_rJobs_subset [OF that(2)] that(1) by auto
  have lo: "\<not> matchesFilters job f"
    if "0 < fMinSalary f" "SalaryMin job = 0 \<or> SalaryMin job < fMinSalary f"
    using that matchesFilters_salary [of job f] by auto
  have hi: "\<not> matchesFilters job f"
    if "0 < fMaxSalary f" "SalaryMax job = 0 \<or> fMaxSalary f < SalaryMax job"
    using that matchesFilters_salary [of job f] by auto
  from page lo hi show ?thesis by blast
qed

lemma matchesFilters_only_skills:
  "matchesFilters job (zero_SearchFilters\<lparr>fSkills := sk\<rparr>) \<longleftrightarrow>
     (\<forall>r\<in>set sk. ToLower r \<in> ToLower ` set (Skills job))"
  unfolding matchesFilters_conj
  by (cases sk) (simp_all add: zero_SearchFilters_def has_required_skills_iff jobSkills_of_eq)

lemma matchesFilters_only_keywords:
  "matchesFilters job (zero_SearchFilters\<lparr>fKeywords := ks\<rparr>) \<longleftrightarrow>
     ks = [] \<or> (\<exists>k\<in>set ks. Contains (jobText_of job) (ToLower k))"
  unfolding matchesFilters_conj
  by (simp add: zero_SearchFilters_def keyword_found_iff)

text \<open>
  C7: a record that matches has, for every requested skill, a skill equal to it after
  lowering both (all of them are required), and, when keywords are requested, at least
  one keyword whose lowered form is a substring of the lowered text made of the title,
  the description and the skills.  With no other filter set, the skills filter matches
  exactly the records that have all the requested skills, and the keywords filter
  exactly the records in which some keyword occurs.
\<close>

theorem skills_all_keywords_any:
  "(matchesFilters job f \<longrightarrow>
      (\<forall>r\<in>set (fSkills f). ToLower r \<in> ToLower ` set (Skills job))
      \<and> (fKeywords f = [] \<or> (\<exists>k\<in>set (fKeywords f). sublist (ToLower k) (jobText_of job))))
   \<and> (matchesFilters job (zero_SearchFilters\<lparr>fSkills := sk\<rparr>) \<longleftrightarrow>
        (\<forall>r\<in>set sk. ToLower r \<in> ToLower ` set (Skills job)))
   \<and> (matchesFilters job (zero_SearchFilters\<lparr>fKeywords := ks\<rparr>) \<longleftrightarrow>
        ks = [] \<or> (\<exists>k\<in>set ks. sublist (ToLower k) (jobText_of job)))
   \<and> jobText_of job = ToLower (Title job @ '' '' @ Description job @ '' '' @ Join (Skills job) '' '')"
proof -
  have skills: "\<forall>r\<in>set (fSkills f). ToLower r \<in> ToLower ` set (Skills job)"
    if "matchesFilters job f"
  proof (cases "fSkills f = []")
    case True
    then show ?thesis by simp
  next
    case False
    from that have "fSkills f = [] \<or> has_required_skills (jobSkills_of (Skills job)) (fSkills f)"
      unfolding matchesFilters_conj by blast
    with False show ?thesis by (simp add: has_required_skills_iff jobSkills_of_eq)
  qed
  have kw: "fKeywords f = [] \<or> (\<exists>k\<in>set (fKeywords f). sublist (ToLower k) (jobText_of job))"
    if "matchesFilters job f"
  proof -
    from that have "fKeywords f = [] \<or> keyword_found (jobText_of job) (fKeywords f)"
      unfolding matchesFilters_conj by blast
    then show ?thesis by (simp add: keyword_found_iff Contains_sublist)
  qed
  have only_skills: "matchesFilters job (zero_SearchFilters\<lparr>fSkills := sk\<rparr>) \<longleftrightarrow>
      (\<forall>r\<in>set sk. ToLower r \<in> ToLower ` set (Skills job))"
    by (rule matchesFilters_only_skills)
  have only_keywords: "matchesFilters job (zero_SearchFilters\<lparr>fKeywords := ks\<rparr>) \<longleftrightarrow>
      ks = [] \<or> (\<exists>k\<in>set ks. sublist (ToLower k) (jobText_of job))"
    unfolding matchesFilters_only_keywords by (simp add: Contains_sublist)
  from skills kw only_skills only_keywords show ?thesis
    unfolding jobText_of_def by blast
qed


section \<open>Pagination\<close>

lemma set_sort_insert: "set (sort_insert lessf x ys) = insert x (set ys)"
  by (induction ys) auto

lemma sorted_sort_insert:
  fixes key :: "'a \<Rightarrow> 'b::linorder"
  assumes "sorted_wrt (\<lambda>a b. key a \<le> key b) ys"
  shows "sorted_wrt (\<lambda>a b. key a \<le> key b) (sort_insert (\<lambda>a b. key a > key b) x ys)"
  using assms by (induction ys) (auto simp: set_sort_insert)

lemma sorted_sort_fold:
  fixes key :: "'a \<Rightarrow> 'b::linorder"
  assumes "sorted_wrt (\<lambda>a b. key a \<le> key b) acc"
  shows "sorted_wrt (\<lambda>a b. key a \<le> key b)
     (foldl (\<lambda>racc x. sort_insert (\<lambda>a b. key a > key b) x racc) acc xs)"
  using assms by (induction xs arbitrary: acc) (simp_all add: sorted_sort_insert)

lemma sorted_sort_Slice:
  fixes key :: "'a \<Rightarrow> 'b::linorder"
  shows "sorted_wrt (\<lambda>a b. key a \<ge> key b) (sort_Slice (\<lambda>a b. key a > key b) xs)"
  unfolding sort_Slice_def sorted_wrt_rev
  by (rule sorted_sort_fold) simp

lemma filteredJobs_of_mset:
  "mset (filteredJobs_of s f) = mset (filter (\<lambda>job. matchesFilters job f) (jobs s))"
  by (simp add: filteredJobs_of_def mset_sort_Slice)

lemma filteredJobs_of_sorted:
  "sorted_wrt (\<lambda>a b. PostedDate a \<ge> PostedDate b) (filteredJobs_of s f)"
  unfolding filteredJobs_of_def by (rule sorted_sort_Slice)

lemma slice_page:
  assumes o: "0 \<le> off" and l: "0 \<le> lmt"
  shows "slice xs (if off > int (length xs) then int (length xs) else off)
           (if (if lmt = 0 then int (length xs) else off + lmt) > int (length xs)
            then int (length xs) else (if lmt = 0 then int (length xs) else off + lmt)) =
         Inr (if lmt = 0 then drop (nat off) xs else take (nat lmt) (drop (nat off) xs))"
proof (cases "off > int (length xs)")
  case True
  then have "drop (nat off) xs = []" by simp
  with True o l show ?thesis by (simp add: slice_def)
next
  case False
  show ?thesis
  proof (cases "lmt = 0")
    case True
    with False o show ?thesis by (simp add: slice_def)
  next
    case nz: False
    show ?thesis
    proof (cases "off + lmt > int (length xs)")
      case True
      then have "length (drop (nat off) xs) \<le> nat lmt" using o l by simp
      then have "take (nat lmt) (drop (nat off) xs) = drop (nat off) xs" by simp
      with True False nz o l show ?thesis by (simp add: slice_def)
    next
      case le: False
      have "nat (off + lmt - off) = nat lmt" by simp
      with le False nz o l show ?thesis by (simp add: slice_def)
    qed
  qed
qed

lemma Search_ok:
  assumes o: "0 \<le> fOffset f" and l: "0 \<le> fLimit f" and b: "fOffset f + fLimit f < 2 ^ 63"
    and a: "GetAnalytics si ci (filteredJobs_of s f) = Inr a"
  shows "Search si ci s f =
     Inr \<lparr>rJobs = (if fLimit f = 0 then drop (nat (fOffset f)) (filteredJobs_of s f)
                   else take (nat (fLimit f)) (drop (nat (fOffset f)) (filteredJobs_of s f))),
          rTotal = int (length (filteredJobs_of s f)), rAnalytics = a, rFilters = f\<rparr>"
proof -
  have w: "wrap64 (fOffset f + fLimit f) = fOffset f + fLimit f"
    using o l b by (intro wrap64_id) simp_all
  show ?thesis
    unfolding Search_def Let_def w slice_page [OF o l] a by simp
qed

text \<open>
  Where the offset and the limit are not negative and their sum is below \<open>2^63\<close>,
  \<open>Search\<close> does not fail.  The page is cut from the filtered list sorted newest first:
  the list without its first \<open>offset\<close> records, and of these the first \<open>limit\<close> unless
  \<open>limit\<close> is 0, which keeps them all.  The total is the number of records that match,
  whatever the offset and the limit; an offset at or beyond the total gives an empty
  page.
\<close>

lemma Search_pagination:
  assumes "0 \<le> fOffset f" and "0 \<le> fLimit f" and "fOffset f + fLimit f < 2 ^ 63"
  shows "\<exists>r. Search si ci s f = Inr r
     \<and> rTotal r = int (length (filter (\<lambda>job. matchesFilters job f) (jobs s)))
     \<and> rTotal r = int (length (filteredJobs_of s f))
     \<and> rJobs r = (if fLimit f = 0 then drop (nat (fOffset f)) (filteredJobs_of s f)
                  else take (nat (fLimit f)) (drop (nat (fOffset f)) (filteredJobs_of s f)))
     \<and> (if rTotal r \<le> fOffset f then rJobs r = []
         else if fLimit f = 0 then int (length (rJobs r)) = rTotal r - fOffset f
         else int (length (rJobs r)) = min (fLimit f) (rTotal r - fOffset f))
     \<and> mset (filteredJobs_of s f) = mset (filter (\<lambda>job. matchesFilters job f) (jobs s))
     \<and> sorted_wrt (\<lambda>a b. PostedDate a \<ge> PostedDate b) (filteredJobs_of s f)"
proof -
  obtain a where a: "GetAnalytics si ci (filteredJobs_of s f) = Inr a"
    using GetAnalytics_total by blast
  define r where "r = \<lparr>rJobs = (if fLimit f = 0 then drop (nat (fOffset f)) (filteredJobs_of s f)
                   else take (nat (fLimit f)) (drop (nat (fOffset f)) (filteredJobs_of s f))),
          rTotal = int (length (filteredJobs_of s f)), rAnalytics = a, rFilters = f\<rparr>"
  have ok: "Search si ci s f = Inr r"
    unfolding r_def by (rule Search_ok [OF assms a])
  have total: "rTotal r = int (length (filteredJobs_of s f))"
    by (simp add: r_def)
  have total': "rTotal r = int (length (filter (\<lambda>job. matchesFilters job f) (jobs s)))"
    by (simp add: r_def filteredJobs_of_def length_sort_Slice)
  have page: "rJobs r = (if fLimit f = 0 then drop (nat (fOffset f)) (filteredJobs_of s f)
                  else take (nat (fLimit f)) (drop (nat (fOffset f)) (filteredJobs_of s f)))"
    by (simp add: r_def)
  have len: "if rTotal r \<le> fOffset f then rJobs r = []
         else if fLimit f = 0 then int (length (rJobs r)) = rTotal r - fOffset f
         else int (length (rJobs r)) = min (fLimit f) (rTotal r - fOffset f)"
    using assms(1,2) unfolding page total by auto
  from ok total total' page len filteredJobs_of_mset filteredJobs_of_sorted
  show ?thesis by blast
qed

text \<open>
  C3: \<open>Search\<close> clamps the offset from above only.  With the offset \<open>-1\<close>, which the JSON
  search request passes on unchecked, the slice expression \<open>filteredJobs[start:end]\<close>
  panics, on an empty storage already, where the claim has the offset clamped to
  \<open>[0, total]\<close> and no failure for any offset.
\<close>

theorem Search_negative_offset_panics:
  "Search [] [] NewInMemoryStorage (zero_SearchFilters\<lparr>fOffset := - 1\<rparr>) =
     Inl SliceBoundsOutOfRange"
  by (simp add: Search_def filteredJobs_of_def NewInMemoryStorage_def zero_SearchFilters_def
      sort_Slice_def slice_def bind_panic_def wrap64_def Let_def)

text \<open>So does a negative limit below an offset, and an offset and a limit whose sum overflows.\<close>

lemma Search_negative_limit_panics:
  "Search [] [] \<lparr>jobs = [zero_Job]\<rparr> (zero_SearchFilters\<lparr>fOffset := 1, fLimit := - 1\<rparr>) =
     Inl SliceBoundsOutOfRange"
  by (simp add: Search_def filteredJobs_of_def matchesFilters_def zero_SearchFilters_def
      sort_Slice_def slice_def bind_panic_def wrap64_def Let_def)

lemma Search_overflow_panics:
  "Search [] [] NewInMemoryStorage
     (zero_SearchFilters\<lparr>fOffset := 1, fLimit := 9223372036854775807\<rparr>) =
     Inl SliceBoundsOutOfRange"
  by (simp add: Search_def filteredJobs_of_def NewInMemoryStorage_def zero_SearchFilters_def
      sort_Slice_def slice_def bind_panic_def wrap64_def Let_def)


section \<open>Worked examples\<close>

lemma Search_pagination_example:
  "0 \<le> fOffset (zero_SearchFilters\<lparr>fLimit := 1, fOffset := 1\<rparr>)
   \<and> 0 \<le> fLimit (zero_SearchFilters\<lparr>fLimit := 1, fOffset := 1\<rparr>)
   \<and> fOffset (zero_SearchFilters\<lparr>fLimit := 1, fOffset := 1\<rparr>)
       + fLimit (zero_SearchFilters\<lparr>fLimit := 1, fOffset := 1\<rparr>) < 2 ^ 63
   \<and> (\<exists>r. Search [] []
          \<lparr>jobs = [zero_Job\<lparr>PostedDate := 1, URL := ''a''\<rparr>,
                   zero_Job\<lparr>PostedDate := 3, URL := ''b''\<rparr>,
                   zero_Job\<lparr>PostedDate := 2, URL := ''c''\<rparr>]\<rparr>
          (zero_SearchFilters\<lparr>fLimit := 1, fOffset := 1\<rparr>) = Inr r
        \<and> rTotal r = 3 \<and> rJobs r = [zero_Job\<lparr>PostedDate := 2, URL := ''c''\<rparr>])"
proof -
  define f where "f = zero_SearchFilters\<lparr>fLimit := 1, fOffset := 1\<rparr>"
  define s where "s = \<lparr>jobs = [zero_Job\<lparr>PostedDate := 1, URL := ''a''\<rparr>,
                   zero_Job\<lparr>PostedDate := 3, URL := ''b''\<rparr>,
                   zero_Job\<lparr>PostedDate := 2, URL := ''c''\<rparr>]\<rparr>"
  have h: "0 \<le> fOffset f" "0 \<le> fLimit f" "fOffset f + fLimit f < 2 ^ 63"
    by (simp_all add: f_def zero_SearchFilters_def)
  have m: "matchesFilters job f" for job
    by (simp add: matchesFilters_def f_def zero_SearchFilters_def)
  have F: "filteredJobs_of s f =
      [zero_Job\<lparr>PostedDate := 3, URL := ''b''\<rparr>, zero_Job\<lparr>PostedDate := 2, URL := ''c''\<rparr>,
       zero_Job\<lparr>PostedDate := 1, URL := ''a''\<rparr>]"
    by (simp add: filteredJobs_of_def m s_def sort_Slice_def zero_Job_def)
  from Search_pagination [OF h, of "[]" "[]" s] obtain r where
    r: "Search [] [] s f = Inr r" "rTotal r = int (length (filteredJobs_of s f))"
      "rJobs r = (if fLimit f = 0 then drop (nat (fOffset f)) (filteredJobs_of s f)
                  else take (nat (fLimit f)) (drop (nat (fOffset f)) (filteredJobs_of s f)))"
    by blast
  have "rTotal r = 3" using r(2) unfolding F by simp
  moreover have "rJobs r = [zero_Job\<lparr>PostedDate := 2, URL := ''c''\<rparr>]"
    using r(3) unfolding F by (simp add: f_def zero_SearchFilters_def)
  ultimately show ?thesis using h r(1) unfolding f_def s_def by blast
qed

theorem salary_filter_excludes_witness:
  "0 < fMinSalary (zero_SearchFilters\<lparr>fMinSalary := 50000\<rparr>)
   \<and> SalaryMin (zero_Job\<lparr>SalaryMax := 90000, URL := ''a''\<rparr>) = 0
   \<and> \<not> matchesFilters (zero_Job\<lparr>SalaryMax := 90000, URL := ''a''\<rparr>)
         (zero_SearchFilters\<lparr>fMinSalary := 50000\<rparr>)
   \<and> (\<exists>r. Search [] []
          \<lparr>jobs = [zero_Job\<lparr>SalaryMax := 90000, URL := ''a''\<rparr>,
                   zero_Job\<lparr>SalaryMin := 60000, URL := ''b''\<rparr>]\<rparr>
          (zero_SearchFilters\<lparr>fMinSalary := 50000\<rparr>) = Inr r
        \<and> zero_Job\<lparr>SalaryMax := 90000, URL := ''a''\<rparr> \<notin> set (rJobs r)
        \<and> rJobs r = [zero_Job\<lparr>SalaryMin := 60000, URL := ''b''\<rparr>])"
proof -
  define f where "f = zero_SearchFilters\<lparr>fMinSalary := 50000\<rparr>"
  define j1 where "j1 = zero_Job\<lparr>SalaryMax := 90000, URL := ''a''\<rparr>"
  define j2 where "j2 = zero_Job\<lparr>SalaryMin := 60000, URL := ''b''\<rparr>"
  define s where "s = \<lparr>jobs = [j1, j2]\<rparr>"
  have h: "0 < fMinSalary f" "SalaryMin j1 = 0"
    by (simp_all add: f_def j1_def zero_SearchFilters_def zero_Job_def)
  note t = salary_filter_excludes [of f j1 "[]" "[]" s]
  from t h have n: "\<not> matchesFilters j1 f"
    and page: "\<And>r. Search [] [] s f = Inr r \<Longrightarrow> j1 \<notin> set (rJobs r)" by blast+
  have m2: "matchesFilters j2 f"
    by (simp add: matchesFilters_def f_def j2_def zero_SearchFilters_def zero_Job_def)
  have F: "filteredJobs_of s f = [j2]"
    by (simp add: filteredJobs_of_def s_def n m2 sort_Slice_def)
  obtain a where a: "GetAnalytics [] [] (filteredJobs_of s f) = Inr a"
    using GetAnalytics_total by blast
  have o: "0 \<le> fOffset f" "0 \<le> fLimit f" "fOffset f + fLimit f < 2 ^ 63"
    by (simp_all add: f_def zero_SearchFilters_def)
  from Search_ok [OF o a] obtain r where r: "Search [] [] s f = Inr r"
    and "rJobs r = (if fLimit f = 0 then drop (nat (fOffset f)) (filteredJobs_of s f)
                   else take (nat (fLimit f)) (drop (nat (fOffset f)) (filteredJobs_of s f)))"
    by simp
  then have "rJobs r = [j2]" unfolding F by (simp add: f_def zero_SearchFilters_def)
  with h n r page [OF r] show ?thesis unfolding f_def j1_def j2_def s_def by blast
qed

theorem skills_all_keywords_any_witness:
  "matchesFilters (zero_Job\<lparr>Skills := [''Go'', ''Docker'']\<rparr>)
     (zero_SearchFilters\<lparr>fSkills := [''go'', ''DOCKER'']\<rparr>)
   \<and> \<not> matchesFilters (zero_Job\<lparr>Skills := [''Go'']\<rparr>)
     (zero_SearchFilters\<lparr>fSkills := [''Go'', ''Docker'']\<rparr>)
   \<and> matchesFilters (zero_Job\<lparr>Title := ''Senior JAVA developer''\<rparr>)
     (zero_SearchFilters\<lparr>fKeywords := [''Go'', ''Java'']\<rparr>)
   \<and> matchesFilters (zero_Job\<lparr>Skills := [''Go'']\<rparr>)
     (zero_SearchFilters\<lparr>fKeywords := [''Go'', ''Java'']\<rparr>)
   \<and> \<not> matchesFilters (zero_Job\<lparr>Title := ''Rust developer''\<rparr>)
     (zero_SearchFilters\<lparr>fKeywords := [''Go'', ''Java'']\<rparr>)"
proof -
  have s1: "\<forall>r\<in>set [''go'', ''DOCKER''].
      ToLower r \<in> ToLower ` set (Skills (zero_Job\<lparr>Skills := [''Go'', ''Docker'']\<rparr>))"
    by code_simp
  have s2: "\<not> (\<forall>r\<in>set [''Go'', ''Docker''].
      ToLower r \<in> ToLower ` set (Skills (zero_Job\<lparr>Skills := [''Go'']\<rparr>)))"
    by code_simp
  have k1: "\<exists>k\<in>set [''Go'', ''Java''].
      sublist (ToLower k) (jobText_of (zero_Job\<lparr>Title := ''Senior JAVA developer''\<rparr>))"
    by code_simp
  have k2: "\<exists>k\<in>set [''Go'', ''Java''].
      sublist (ToLower k) (jobText_of (zero_Job\<lparr>Skills := [''Go'']\<rparr>))"
    by code_simp
  have k3: "\<not> (\<exists>k\<in>set [''Go'', ''Java''].
      sublist (ToLower k) (jobText_of (zero_Job\<lparr>Title := ''Rust developer''\<rparr>)))"
    by code_simp
  note t = skills_all_keywords_any
  from t [where job = "zero_Job\<lparr>Skills := [''Go'', ''Docker'']\<rparr>" and sk = "[''go'', ''DOCKER'']"] s1
  have a: "matchesFilters (zero_Job\<lparr>Skills := [''Go'', ''Docker'']\<rparr>)
     (zero_SearchFilters\<lparr>fSkills := [''go'', ''DOCKER'']\<rparr>)" by blast
  from t [where job = "zero_Job\<lparr>Skills := [''Go'']\<rparr>" and sk = "[''Go'', ''Docker'']"] s2
  have b: "\<not> matchesFilters (zero_Job\<lparr>Skills := [''Go'']\<rparr>)
     (zero_SearchFilters\<lparr>fSkills := [''Go'', ''Docker'']\<rparr>)" by blast
  from t [where job = "zero_Job\<lparr>Title := ''Senior JAVA developer''\<rparr>"
      and ks = "[''Go'', ''Java'']"] k1
  have c: "matchesFilters (zero_Job\<lparr>Title := ''Senior JAVA developer''\<rparr>)
     (zero_SearchFilters\<lparr>fKeywords := [''Go'', ''Java'']\<rparr>)" by blast
  from t [where job = "zero_Job\<lparr>Skills := [''Go'']\<rparr>" and ks = "[''Go'', ''Java'']"] k2
  have d: "matchesFilters (zero_Job\<lparr>Skills := [''Go'']\<rparr>)
     (zero_SearchFilters\<lparr>fKeywords := [''Go'', ''Java'']\<rparr>)" by blast
  from t [where job = "zero_Job\<lparr>Title := ''Rust developer''\<rparr>" and ks = "[''Go'', ''Java'']"] k3
  have e: "\<not> matchesFilters (zero_Job\<lparr>Title := ''Rust developer''\<rparr>)
     (zero_SearchFilters\<lparr>fKeywords := [''Go'', ''Java'']\<rparr>)" by blast
  from a b c d e show ?thesis by blast
qed


section \<open>The rankings and the determinism of a search\<close>

lemma desc_sorted_unique:
  fixes xs ys :: "'a::linorder list"
  assumes "sorted_wrt (\<lambda>a b. a \<ge> b) xs" and "sorted_wrt (\<lambda>a b. a \<ge> b) ys"
    and "mset xs = mset ys"
  shows "xs = ys"
proof -
  have sx: "sorted (rev xs)" and sy: "sorted (rev ys)"
    using assms(1,2) by (simp_all add: sorted_wrt_rev)
  have m: "mset (rev xs) = mset (rev ys)" using assms(3) by simp
  have "sort (rev ys) = rev xs" using m sx by (rule properties_for_sort)
  moreover have "sort (rev ys) = rev ys" using sy by (rule sorted_sort_id)
  ultimately have "rev xs = rev ys" by simp
  then show ?thesis by simp
qed

lemma getTopCompanies_eq: "getTopCompanies iter counts limit = getTopCounts iter counts limit"
  by (simp add: getTopCompanies_def getTopCounts_def)

lemma range_order_mset:
  "range_order counts iter \<Longrightarrow> range_order counts iter' \<Longrightarrow> mset iter = mset iter'"
  unfolding range_order_def by (simp add: set_eq_iff_mset_eq_distinct [symmetric])

lemma getTopCounts_sorted:
  "sorted_wrt (\<lambda>a b. snd a \<ge> snd b) (getTopCounts iter counts limit)"
  unfolding getTopCounts_def Let_def
  by (rule sorted_wrt_take) (rule sorted_sort_Slice [where key = snd])

lemma getTopCounts_length: "length (getTopCounts iter counts limit) = min limit (length iter)"
  by (simp add: getTopCounts_def Let_def length_sort_Slice min.commute)

lemma getTopCounts_counts:
  assumes "range_order counts iter" and "range_order counts iter'"
  shows "map snd (getTopCounts iter counts limit) = map snd (getTopCounts iter' counts limit)"
proof -
  define val where "val = (\<lambda>k. (k, case counts k of None \<Rightarrow> 0 | Some c \<Rightarrow> c))"
  define S where "S = sort_Slice (\<lambda>a b. snd a > snd b) (map val iter)"
  define S' where "S' = sort_Slice (\<lambda>a b. snd a > snd b) (map val iter')"
  have "mset iter = mset iter'" by (rule range_order_mset [OF assms])
  then have "mset (map val iter) = mset (map val iter')" by simp
  then have "mset S = mset S'"
    unfolding S_def S'_def mset_sort_Slice .
  then have m: "mset (map snd S) = mset (map snd S')" by simp
  have "sorted_wrt (\<lambda>a b. snd a \<ge> snd b) S" "sorted_wrt (\<lambda>a b. snd a \<ge> snd b) S'"
    unfolding S_def S'_def by (rule sorted_sort_Slice [where key = snd])+
  then have "sorted_wrt (\<lambda>a b. a \<ge> b) (map snd S)" "sorted_wrt (\<lambda>a b. a \<ge> b) (map snd S')"
    by (simp_all add: sorted_wrt_map)
  then have "map snd S = map snd S'" using m by (rule desc_sorted_unique)
  then have "take limit (map snd S) = take limit (map snd S')" by simp
  then have "map snd (take limit S) = map snd (take limit S')" by (simp only: take_map)
  then show ?thesis unfolding getTopCounts_def Let_def S_def S'_def val_def .
qed

lemma getTopCounts_entries:
  assumes "range_order counts iter" and "(k, c) \<in> set (getTopCounts iter counts limit)"
  shows "counts k = Some c"
proof -
  define val where "val = (\<lambda>k. (k, case counts k of None \<Rightarrow> 0 | Some c \<Rightarrow> c))"
  from assms(2) have "(k, c) \<in> set (take limit (sort_Slice (\<lambda>a b. snd a > snd b) (map val iter)))"
    unfolding getTopCounts_def Let_def val_def .
  then have "(k, c) \<in> set (sort_Slice (\<lambda>a b. snd a > snd b) (map val iter))"
    by (rule in_set_takeD)
  then have "(k, c) \<in> set (map val iter)" by (simp only: set_sort_Slice)
  then obtain k' where k': "k' \<in> set iter" "(k, c) = val k'" by auto
  then have k: "k \<in> set iter" and c: "c = (case counts k of None \<Rightarrow> 0 | Some c \<Rightarrow> c)"
    by (simp_all add: val_def)
  from k assms(1) have "k \<in> dom counts" by (simp add: range_order_def)
  then obtain c' where "counts k = Some c'" by blast
  with c show ?thesis by simp
qed

lemma getTopCounts_distinct:
  assumes "range_order counts iter"
  shows "distinct (map fst (getTopCounts iter counts limit))"
proof -
  define val where "val = (\<lambda>k. (k, case counts k of None \<Rightarrow> 0 | Some c \<Rightarrow> c))"
  define S where "S = sort_Slice (\<lambda>a b. snd a > snd b) (map val iter)"
  have "mset S = mset (map val iter)" unfolding S_def by (rule mset_sort_Slice)
  then have "image_mset fst (mset S) = image_mset fst (mset (map val iter))"
    by (rule arg_cong)
  then have "mset (map fst S) = mset (map fst (map val iter))" by (simp only: mset_map)
  moreover have "map fst (map val iter) = iter" by (simp add: val_def comp_def)
  ultimately have "mset (map fst S) = mset iter" by (simp only:)
  then have "distinct (map fst S) \<longleftrightarrow> distinct iter" by (rule mset_eq_imp_distinct_iff)
  with assms have "distinct (map fst S)" by (simp add: range_order_def)
  then have "distinct (take limit (map fst S))" by (rule distinct_take)
  then show ?thesis unfolding getTopCounts_def Let_def S_def val_def by (simp add: take_map)
qed

text \<open>The counts are the frequencies: \<open>foldl incr\<close> counts the occurrences of each key.\<close>

lemma foldl_incr:
  "foldl incr m ks k =
     (if k \<in> set ks \<or> k \<in> dom m
      then Some ((case m k of None \<Rightarrow> 0 | Some c \<Rightarrow> c) + int (count_list ks k))
      else None)"
proof (induction ks arbitrary: m)
  case Nil
  show ?case by (auto split: option.splits)
next
  case (Cons x ks)
  show ?case
    unfolding foldl_Cons Cons.IH by (auto simp: incr_def split: option.splits)
qed

lemma skillCounts_fold:
  "skillCounts (foldl analytics_step acc js) = foldl incr (skillCounts acc) (concat (map Skills js))"
  by (induction js arbitrary: acc) (simp_all add: analytics_step_def)

lemma skillCounts_frequency:
  "skillCounts (foldl analytics_step init_acc js) k =
     (if k \<in> set (concat (map Skills js))
      then Some (int (count_list (concat (map Skills js)) k)) else None)"
  unfolding skillCounts_fold foldl_incr by (simp add: init_acc_def)

lemma companyCounts_fold:
  "companyCounts (foldl analytics_step acc js) =
     foldl incr (companyCounts acc) (filter (\<lambda>c. c \<noteq> []) (map Company js))"
  by (induction js arbitrary: acc) (simp_all add: analytics_step_def)

lemma companyCounts_frequency:
  "companyCounts (foldl analytics_step init_acc js) k =
     (if k \<in> set (map Company js) \<and> k \<noteq> []
      then Some (int (count_list (map Company js) k)) else None)"
proof -
  have "count_list (filter (\<lambda>c. c \<noteq> []) xs) k = (if k \<noteq> [] then count_list xs k else 0)"
    for xs :: "string list"
    by (induction xs) simp_all
  then show ?thesis
    unfolding companyCounts_fold foldl_incr by (auto simp: init_acc_def)
qed

lemma Search_Inr_rJobs:
  assumes "Search si ci s f = Inr r"
  shows "slice (filteredJobs_of s f)
          (if fOffset f > int (length (filteredJobs_of s f))
           then int (length (filteredJobs_of s f)) else fOffset f)
          (if (if fLimit f = 0 then int (length (filteredJobs_of s f))
               else wrap64 (fOffset f + fLimit f)) > int (length (filteredJobs_of s f))
           then int (length (filteredJobs_of s f))
           else (if fLimit f = 0 then int (length (filteredJobs_of s f))
                 else wrap64 (fOffset f + fLimit f))) = Inr (rJobs r)"
proof -
  from assms obtain p a where
    p: "slice (filteredJobs_of s f)
          (if fOffset f > int (length (filteredJobs_of s f))
           then int (length (filteredJobs_of s f)) else fOffset f)
          (if (if fLimit f = 0 then int (length (filteredJobs_of s f))
               else wrap64 (fOffset f + fLimit f)) > int (length (filteredJobs_of s f))
           then int (length (filteredJobs_of s f))
           else (if fLimit f = 0 then int (length (filteredJobs_of s f))
                 else wrap64 (fOffset f + fLimit f))) = Inr p"
    and r: "r = \<lparr>rJobs = p, rTotal = int (length (filteredJobs_of s f)), rAnalytics = a,
              rFilters = f\<rparr>"
    unfolding Search_def Let_def bind_panic_Inr by blast
  from p r show ?thesis by simp
qed

lemma Search_same_page:
  assumes "Search si ci s f = Inr r" and "Search si' ci' s f = Inr r'"
  shows "rJobs r' = rJobs r"
  using Search_Inr_rJobs [OF assms(1)] Search_Inr_rJobs [OF assms(2)] by simp

lemma GetAnalytics_rankings:
  assumes "GetAnalytics si ci js = Inr a"
  shows "TopSkills a =
           (if js = [] then [] else getTopCounts si (skillCounts (foldl analytics_step init_acc js)) 10)"
    and "TopCompanies a =
           (if js = [] then []
            else getTopCounts ci (companyCounts (foldl analytics_step init_acc js)) 10)"
proof -
  obtain avg rg where s: "salary_stats (concat (map salary_of js)) = Inr (avg, rg)"
    using salary_stats_total by blast
  show "TopSkills a =
      (if js = [] then [] else getTopCounts si (skillCounts (foldl analytics_step init_acc js)) 10)"
  proof (cases "js = []")
    case True
    with assms have "a = zero_JobAnalytics" by (simp add: GetAnalytics_Nil)
    with True show ?thesis by (simp add: zero_JobAnalytics_def)
  next
    case False
    from GetAnalytics_Inr [OF False s, of si ci] assms False show ?thesis by auto
  qed
  show "TopCompanies a =
      (if js = [] then [] else getTopCounts ci (companyCounts (foldl analytics_step init_acc js)) 10)"
  proof (cases "js = []")
    case True
    with assms have "a = zero_JobAnalytics" by (simp add: GetAnalytics_Nil)
    with True show ?thesis by (simp add: zero_JobAnalytics_def)
  next
    case False
    from GetAnalytics_Inr [OF False s, of si ci] assms False show ?thesis
      by (auto simp: getTopCompanies_eq)
  qed
qed

lemma GetAnalytics_same_rest:
  assumes "GetAnalytics si ci js = Inr a" and "GetAnalytics si' ci' js = Inr a'"
  shows "a' = a\<lparr>TopSkills := TopSkills a', TopCompanies := TopCompanies a'\<rparr>"
proof (cases "js = []")
  case True
  with assms have "a = zero_JobAnalytics" "a' = zero_JobAnalytics"
    by (simp_all add: GetAnalytics_Nil)
  then show ?thesis by simp
next
  case False
  obtain avg rg where s: "salary_stats (concat (map salary_of js)) = Inr (avg, rg)"
    using salary_stats_total by blast
  from GetAnalytics_Inr [OF False s, of si ci] GetAnalytics_Inr [OF False s, of si' ci'] assms
  show ?thesis by auto
qed

lemma range_order_length: "range_order counts iter \<Longrightarrow> length iter = card (dom counts)"
proof -
  assume o: "range_order counts iter"
  then have "distinct iter" by (simp add: range_order_def)
  then have "card (set iter) = length iter" by (rule distinct_card)
  with o show ?thesis by (simp add: range_order_def)
qed

lemma getTopCounts_length_card:
  "range_order counts iter \<Longrightarrow>
   length (getTopCounts iter counts limit) = min limit (card (dom counts))"
  by (simp add: getTopCounts_length range_order_length)

lemma getTopCounts_top:
  assumes o: "range_order counts iter" and k: "counts k = Some c"
    and out: "k \<notin> fst ` set (getTopCounts iter counts limit)"
    and e: "(k', c') \<in> set (getTopCounts iter counts limit)"
  shows "c \<le> c'"
proof -
  define val where "val = (\<lambda>k. (k, case counts k of None \<Rightarrow> 0 | Some c \<Rightarrow> c))"
  define S where "S = sort_Slice (\<lambda>a b. snd a > snd b) (map val iter)"
  have top: "getTopCounts iter counts limit = take limit S"
    unfolding getTopCounts_def Let_def S_def val_def ..
  have "sorted_wrt (\<lambda>a b. snd a \<ge> snd b) S"
    unfolding S_def by (rule sorted_sort_Slice [where key = snd])
  then have "sorted_wrt (\<lambda>a b. snd a \<ge> snd b) (take limit S @ drop limit S)" by simp
  then have above: "snd x \<ge> snd y" if "x \<in> set (take limit S)" "y \<in> set (drop limit S)" for x y
    using that unfolding sorted_wrt_append by blast
  from k have "k \<in> dom counts" by blast
  with o have "k \<in> set iter" by (simp add: range_order_def)
  then have "val k \<in> set (map val iter)" by simp
  then have "val k \<in> set S" unfolding S_def by (simp only: set_sort_Slice)
  moreover have "set (take limit S) \<union> set (drop limit S) = set S"
    using set_append [of "take limit S" "drop limit S"] by simp
  ultimately have "val k \<in> set (take limit S) \<or> val k \<in> set (drop limit S)" by blast
  moreover have "val k \<notin> set (take limit S)"
  proof
    assume "val k \<in> set (take limit S)"
    then have "fst (val k) \<in> fst ` set (take limit S)" by (rule imageI)
    with out show False unfolding top by (simp add: val_def)
  qed
  ultimately have "val k \<in> set (drop limit S)" by blast
  moreover from e have "(k', c') \<in> set (take limit S)" unfolding top .
  ultimately have "snd (k', c') \<ge> snd (val k)" using above by blast
  with k show ?thesis by (simp add: val_def)
qed

lemma dom_skillCounts:
  "dom (skillCounts (foldl analytics_step init_acc js)) = set (concat (map Skills js))"
proof -
  have "k \<in> dom (skillCounts (foldl analytics_step init_acc js)) \<longleftrightarrow>
      k \<in> set (concat (map Skills js))" for k
    unfolding dom_def mem_Collect_eq skillCounts_frequency by simp
  then show ?thesis by blast
qed

lemma dom_companyCounts:
  "dom (companyCounts (foldl analytics_step init_acc js)) =
     {c \<in> set (map Company js). c \<noteq> []}"
proof -
  have "k \<in> dom (companyCounts (foldl analytics_step init_acc js)) \<longleftrightarrow>
      k \<in> set (map Company js) \<and> k \<noteq> []" for k
    unfolding dom_def mem_Collect_eq companyCounts_frequency by simp
  then show ?thesis by blast
qed

text \<open>
  C9, amended: two calls of \<open>Search\<close> with the same criteria on the same storage, each
  under an order in which the runtime may range over the two count maps, return the same
  page, the same total, the same echoed criteria and the same analytics but for the two
  rankings.  Each ranking is sorted descending by count and is the top 10: it has 10
  entries, or one for every name when there are fewer; its names are distinct names of
  the filtered records, each with its exact frequency; and no name left out has a higher
  frequency than a name in the ranking.  The sequence of counts is the same in both
  calls.
\<close>

theorem Search_deterministic_up_to_ties:
  assumes r: "Search si ci s f = Inr r" and r': "Search si' ci' s f = Inr r'"
    and si: "range_order (skillCounts (foldl analytics_step init_acc (filteredJobs_of s f))) si"
    and si': "range_order (skillCounts (foldl analytics_step init_acc (filteredJobs_of s f))) si'"
    and ci: "range_order (companyCounts (foldl analytics_step init_acc (filteredJobs_of s f))) ci"
    and ci': "range_order (companyCounts (foldl analytics_step init_acc (filteredJobs_of s f))) ci'"
  shows "rJobs r' = rJobs r \<and> rTotal r' = rTotal r \<and> rFilters r' = rFilters r
     \<and> rAnalytics r' = (rAnalytics r)\<lparr>TopSkills := TopSkills (rAnalytics r'),
                                       TopCompanies := TopCompanies (rAnalytics r')\<rparr>
     \<and> map snd (TopSkills (rAnalytics r')) = map snd (TopSkills (rAnalytics r))
     \<and> map snd (TopCompanies (rAnalytics r')) = map snd (TopCompanies (rAnalytics r))
     \<and> sorted_wrt (\<lambda>a b. snd a \<ge> snd b) (TopSkills (rAnalytics r))
     \<and> sorted_wrt (\<lambda>a b. snd a \<ge> snd b) (TopCompanies (rAnalytics r))
     \<and> length (TopSkills (rAnalytics r)) \<le> 10
     \<and> length (TopCompanies (rAnalytics r)) \<le> 10
     \<and> distinct (map fst (TopSkills (rAnalytics r)))
     \<and> distinct (map fst (TopCompanies (rAnalytics r)))
     \<and> (\<forall>(k, c) \<in> set (TopSkills (rAnalytics r)).
           c = int (count_list (concat (map Skills (filteredJobs_of s f))) k))
     \<and> (\<forall>(k, c) \<in> set (TopCompanies (rAnalytics r)).
           c = int (count_list (map Company (filteredJobs_of s f)) k))
     \<and> length (TopSkills (rAnalytics r)) =
         min 10 (card (set (concat (map Skills (filteredJobs_of s f)))))
     \<and> length (TopCompanies (rAnalytics r)) =
         min 10 (card {c \<in> set (map Company (filteredJobs_of s f)). c \<noteq> []})
     \<and> fst ` set (TopSkills (rAnalytics r)) \<subseteq> set (concat (map Skills (filteredJobs_of s f)))
     \<and> fst ` set (TopCompanies (rAnalytics r)) \<subseteq>
         {c \<in> set (map Company (filteredJobs_of s f)). c \<noteq> []}
     \<and> (\<forall>k \<in> set (concat (map Skills (filteredJobs_of s f))).
           k \<notin> fst ` set (TopSkills (rAnalytics r)) \<longrightarrow>
           (\<forall>(k', c') \<in> set (TopSkills (rAnalytics r)).
              int (count_list (concat (map Skills (filteredJobs_of s f))) k) \<le> c'))
     \<and> (\<forall>k \<in> {c \<in> set (map Company (filteredJobs_of s f)). c \<noteq> []}.
           k \<notin> fst ` set (TopCompanies (rAnalytics r)) \<longrightarrow>
           (\<forall>(k', c') \<in> set (TopCompanies (rAnalytics r)).
              int (count_list (map Company (filteredJobs_of s f)) k) \<le> c'))"
proof -
  define F where "F = filteredJobs_of s f"
  define sc where "sc = skillCounts (foldl analytics_step init_acc F)"
  define cc where "cc = companyCounts (foldl analytics_step init_acc F)"
  have o: "range_order sc si" "range_order sc si'" "range_order cc ci" "range_order cc ci'"
    using si si' ci ci' unfolding sc_def cc_def F_def by blast+
  have dsc: "dom sc = set (concat (map Skills F))"
    unfolding sc_def by (rule dom_skillCounts)
  have dcc: "dom cc = {c \<in> set (map Company F). c \<noteq> []}"
    unfolding cc_def by (rule dom_companyCounts)
  note a = Search_Inr_D(2) [OF r, folded F_def]
  note a' = Search_Inr_D(2) [OF r', folded F_def]
  have page: "rJobs r' = rJobs r" by (rule Search_same_page [OF r r'])
  have total: "rTotal r' = rTotal r"
    using Search_Inr_D(3) [OF r] Search_Inr_D(3) [OF r'] by simp
  have echo: "rFilters r' = rFilters r"
    using Search_Inr_D(4) [OF r] Search_Inr_D(4) [OF r'] by simp
  have rest: "rAnalytics r' = (rAnalytics r)\<lparr>TopSkills := TopSkills (rAnalytics r'),
      TopCompanies := TopCompanies (rAnalytics r')\<rparr>"
    by (rule GetAnalytics_same_rest [OF a a'])
  have ts: "TopSkills (rAnalytics r) = (if F = [] then [] else getTopCounts si sc 10)"
    and tc: "TopCompanies (rAnalytics r) = (if F = [] then [] else getTopCounts ci cc 10)"
    unfolding sc_def cc_def by (rule GetAnalytics_rankings [OF a])+
  have ts': "TopSkills (rAnalytics r') = (if F = [] then [] else getTopCounts si' sc 10)"
    and tc': "TopCompanies (rAnalytics r') = (if F = [] then [] else getTopCounts ci' cc 10)"
    unfolding sc_def cc_def by (rule GetAnalytics_rankings [OF a'])+
  have cs: "map snd (TopSkills (rAnalytics r')) = map snd (TopSkills (rAnalytics r))"
    unfolding ts ts'
    using getTopCounts_counts [OF o(2) o(1), of 10] by simp
  have ccs: "map snd (TopCompanies (rAnalytics r')) = map snd (TopCompanies (rAnalytics r))"
    unfolding tc tc'
    using getTopCounts_counts [OF o(4) o(3), of 10] by simp
  have so: "sorted_wrt (\<lambda>a b. snd a \<ge> snd b) (TopSkills (rAnalytics r))"
    "sorted_wrt (\<lambda>a b. snd a \<ge> snd b) (TopCompanies (rAnalytics r))"
    unfolding ts tc by (simp_all add: getTopCounts_sorted)
  have le: "length (TopSkills (rAnalytics r)) \<le> 10" "length (TopCompanies (rAnalytics r)) \<le> 10"
    unfolding ts tc by (simp_all add: getTopCounts_length)
  have di: "distinct (map fst (TopSkills (rAnalytics r)))"
    "distinct (map fst (TopCompanies (rAnalytics r)))"
    unfolding ts tc
    using getTopCounts_distinct [OF o(1), of 10] getTopCounts_distinct [OF o(3), of 10]
    by simp_all
  have es: "sc k = Some c" if "(k, c) \<in> set (TopSkills (rAnalytics r))" for k c
  proof -
    from that have "(k, c) \<in> set (getTopCounts si sc 10)"
      unfolding ts by (simp split: if_splits)
    from getTopCounts_entries [OF o(1) this] show ?thesis .
  qed
  have ec: "cc k = Some c" if "(k, c) \<in> set (TopCompanies (rAnalytics r))" for k c
  proof -
    from that have "(k, c) \<in> set (getTopCounts ci cc 10)"
      unfolding tc by (simp split: if_splits)
    from getTopCounts_entries [OF o(3) this] show ?thesis .
  qed
  have fs: "c = int (count_list (concat (map Skills F)) k)"
    if "(k, c) \<in> set (TopSkills (rAnalytics r))" for k c
    using es [OF that] unfolding sc_def skillCounts_frequency by (simp split: if_splits)
  have fc: "c = int (count_list (map Company F) k)"
    if "(k, c) \<in> set (TopCompanies (rAnalytics r))" for k c
    using ec [OF that] unfolding cc_def companyCounts_frequency by (simp split: if_splits)
  from fs have fs': "\<forall>(k, c) \<in> set (TopSkills (rAnalytics r)).
      c = int (count_list (concat (map Skills F)) k)" by blast
  from fc have fc': "\<forall>(k, c) \<in> set (TopCompanies (rAnalytics r)).
      c = int (count_list (map Company F) k)" by blast
  have ns: "fst ` set (TopSkills (rAnalytics r)) \<subseteq> set (concat (map Skills F))"
  proof
    fix k assume "k \<in> fst ` set (TopSkills (rAnalytics r))"
    then obtain c where "(k, c) \<in> set (TopSkills (rAnalytics r))" by auto
    from es [OF this] have "k \<in> dom sc" by blast
    then show "k \<in> set (concat (map Skills F))" unfolding dsc .
  qed
  have nc: "fst ` set (TopCompanies (rAnalytics r)) \<subseteq> {c \<in> set (map Company F). c \<noteq> []}"
  proof
    fix k assume "k \<in> fst ` set (TopCompanies (rAnalytics r))"
    then obtain c where "(k, c) \<in> set (TopCompanies (rAnalytics r))" by auto
    from ec [OF this] have "k \<in> dom cc" by blast
    then show "k \<in> {c \<in> set (map Company F). c \<noteq> []}" unfolding dcc .
  qed
  have ls: "length (TopSkills (rAnalytics r)) = min 10 (card (set (concat (map Skills F))))"
  proof (cases "F = []")
    case True
    then show ?thesis unfolding ts by simp
  next
    case False
    then show ?thesis
      unfolding ts using getTopCounts_length_card [OF o(1), of 10] by (simp add: dsc)
  qed
  have lc: "length (TopCompanies (rAnalytics r)) =
      min 10 (card {c \<in> set (map Company F). c \<noteq> []})"
  proof (cases "F = []")
    case True
    then show ?thesis unfolding tc by simp
  next
    case False
    then show ?thesis
      unfolding tc using getTopCounts_length_card [OF o(3), of 10] by (simp add: dcc)
  qed
  have tops: "int (count_list (concat (map Skills F)) k) \<le> c'"
    if "k \<in> set (concat (map Skills F))" "k \<notin> fst ` set (TopSkills (rAnalytics r))"
      "(k', c') \<in> set (TopSkills (rAnalytics r))" for k k' c'
  proof -
    from that(3) have ne: "F \<noteq> []" unfolding ts by (auto split: if_splits)
    have c: "sc k = Some (int (count_list (concat (map Skills F)) k))"
      unfolding sc_def skillCounts_frequency using that(1) by simp
    from that(2,3) ne show ?thesis
      unfolding ts using getTopCounts_top [OF o(1) c, of 10 k' c'] by simp
  qed
  have topc: "int (count_list (map Company F) k) \<le> c'"
    if "k \<in> {c \<in> set (map Company F). c \<noteq> []}"
      "k \<notin> fst ` set (TopCompanies (rAnalytics r))"
      "(k', c') \<in> set (TopCompanies (rAnalytics r))" for k k' c'
  proof -
    from that(3) have ne: "F \<noteq> []" unfolding tc by (auto split: if_splits)
    have c: "cc k = Some (int (count_list (map Company F) k))"
      unfolding cc_def companyCounts_frequency using that(1) by simp
    from that(2,3) ne show ?thesis
      unfolding tc using getTopCounts_top [OF o(3) c, of 10 k' c'] by simp
  qed
  from tops have tops': "\<forall>k \<in> set (concat (map Skills F)).
      k \<notin> fst ` set (TopSkills (rAnalytics r)) \<longrightarrow>
      (\<forall>(k', c') \<in> set (TopSkills (rAnalytics r)).
         int (count_list (concat (map Skills F)) k) \<le> c')" by blast
  from topc have topc': "\<forall>k \<in> {c \<in> set (map Company F). c \<noteq> []}.
      k \<notin> fst ` set (TopCompanies (rAnalytics r)) \<longrightarrow>
      (\<forall>(k', c') \<in> set (TopCompanies (rAnalytics r)).
         int (count_list (map Company F) k) \<le> c')" by blast
  note facts = page total echo rest cs ccs so le di fs' fc' ls lc ns nc tops' topc'
  show ?thesis
    unfolding F_def [symmetric] by (intro conjI) (rule facts)+
qed

lemma example_filtered:
  "filteredJobs_of \<lparr>jobs = [zero_Job\<lparr>Skills := [''Go'', ''Docker''], URL := ''a''\<rparr>]\<rparr>
     zero_SearchFilters = [zero_Job\<lparr>Skills := [''Go'', ''Docker''], URL := ''a''\<rparr>]"
  by (simp add: filteredJobs_of_def matchesFilters_def zero_SearchFilters_def sort_Slice_def)

lemma example_skillCounts:
  "skillCounts (foldl analytics_step init_acc
      [zero_Job\<lparr>Skills := [''Go'', ''Docker''], URL := ''a''\<rparr>]) =
     [''Go'' \<mapsto> 1, ''Docker'' \<mapsto> 1]"
  by (simp add: analytics_step_def init_acc_def incr_def zero_Job_def)

lemma example_companyCounts:
  "companyCounts (foldl analytics_step init_acc
      [zero_Job\<lparr>Skills := [''Go'', ''Docker''], URL := ''a''\<rparr>]) = Map.empty"
  by (simp add: analytics_step_def init_acc_def zero_Job_def)

lemma example_orders:
  "range_order [''Go'' \<mapsto> 1, ''Docker'' \<mapsto> 1] [''Go'', ''Docker'']"
  "range_order [''Go'' \<mapsto> 1, ''Docker'' \<mapsto> 1] [''Docker'', ''Go'']"
  "range_order Map.empty []"
  by (auto simp: range_order_def)

lemma example_rankings:
  "getTopCounts [''Go'', ''Docker''] [''Go'' \<mapsto> 1, ''Docker'' \<mapsto> 1] 10 =
     [(''Go'', 1), (''Docker'', 1)]"
  "getTopCounts [''Docker'', ''Go''] [''Go'' \<mapsto> 1, ''Docker'' \<mapsto> 1] 10 =
     [(''Docker'', 1), (''Go'', 1)]"
  by (simp_all add: getTopCounts_def sort_Slice_def)

lemma example_Search:
  "map_sum id (TopSkills \<circ> rAnalytics)
     (Search si [] \<lparr>jobs = [zero_Job\<lparr>Skills := [''Go'', ''Docker''], URL := ''a''\<rparr>]\<rparr>
        zero_SearchFilters) =
   Inr (getTopCounts si [''Go'' \<mapsto> 1, ''Docker'' \<mapsto> 1] 10)"
proof -
  define s where "s = \<lparr>jobs = [zero_Job\<lparr>Skills := [''Go'', ''Docker''], URL := ''a''\<rparr>]\<rparr>"
  obtain a where a: "GetAnalytics si [] (filteredJobs_of s zero_SearchFilters) = Inr a"
    using GetAnalytics_total by blast
  have o: "0 \<le> fOffset zero_SearchFilters" "0 \<le> fLimit zero_SearchFilters"
    "fOffset zero_SearchFilters + fLimit zero_SearchFilters < 2 ^ 63"
    by (simp_all add: zero_SearchFilters_def)
  have "TopSkills a = getTopCounts si [''Go'' \<mapsto> 1, ''Docker'' \<mapsto> 1] 10"
    using GetAnalytics_rankings(1) [OF a]
    unfolding s_def example_filtered example_skillCounts by simp
  then show ?thesis
    unfolding s_def [symmetric] Search_ok [OF o a] by simp
qed

text \<open>
  C9 as stated fails: a storage with one record whose skills are Go and Docker, searched
  twice with no filter.  Both orders of the two keys are orders the runtime may choose
  for the \<open>range\<close> loop of \<open>getTopCounts\<close>; the counts tie, the comparison of \<open>sort.Slice\<close>
  reads the counts only, and the two calls return different rankings, the second with
  Docker before Go although Go was seen first.
\<close>

theorem Search_ranking_not_deterministic:
  "range_order (skillCounts (foldl analytics_step init_acc (filteredJobs_of
       \<lparr>jobs = [zero_Job\<lparr>Skills := [''Go'', ''Docker''], URL := ''a''\<rparr>]\<rparr> zero_SearchFilters)))
     [''Go'', ''Docker'']
   \<and> range_order (skillCounts (foldl analytics_step init_acc (filteredJobs_of
       \<lparr>jobs = [zero_Job\<lparr>Skills := [''Go'', ''Docker''], URL := ''a''\<rparr>]\<rparr> zero_SearchFilters)))
     [''Docker'', ''Go'']
   \<and> range_order (companyCounts (foldl analytics_step init_acc (filteredJobs_of
       \<lparr>jobs = [zero_Job\<lparr>Skills := [''Go'', ''Docker''], URL := ''a''\<rparr>]\<rparr> zero_SearchFilters)))
     []
   \<and> map_sum id (TopSkills \<circ> rAnalytics)
       (Search [''Go'', ''Docker''] []
          \<lparr>jobs = [zero_Job\<lparr>Skills := [''Go'', ''Docker''], URL := ''a''\<rparr>]\<rparr> zero_SearchFilters) =
      Inr [(''Go'', 1), (''Docker'', 1)]
   \<and> map_sum id (TopSkills \<circ> rAnalytics)
       (Search [''Docker'', ''Go''] []
          \<lparr>jobs = [zero_Job\<lparr>Skills := [''Go'', ''Docker''], URL := ''a''\<rparr>]\<rparr> zero_SearchFilters) =
      Inr [(''Docker'', 1), (''Go'', 1)]
   \<and> Search [''Go'', ''Docker''] []
         \<lparr>jobs = [zero_Job\<lparr>Skills := [''Go'', ''Docker''], URL := ''a''\<rparr>]\<rparr> zero_SearchFilters \<noteq>
       Search [''Docker'', ''Go''] []
         \<lparr>jobs = [zero_Job\<lparr>Skills := [''Go'', ''Docker''], URL := ''a''\<rparr>]\<rparr> zero_SearchFilters"
proof -
  note e = example_Search [of "[''Go'', ''Docker'']", unfolded example_rankings]
  note e' = example_Search [of "[''Docker'', ''Go'']", unfolded example_rankings]
  have "Search [''Go'', ''Docker''] []
         \<lparr>jobs = [zero_Job\<lparr>Skills := [''Go'', ''Docker''], URL := ''a''\<rparr>]\<rparr> zero_SearchFilters \<noteq>
       Search [''Docker'', ''Go''] []
         \<lparr>jobs = [zero_Job\<lparr>Skills := [''Go'', ''Docker''], URL := ''a''\<rparr>]\<rparr> zero_SearchFilters"
  proof
    assume "Search [''Go'', ''Docker''] []
         \<lparr>jobs = [zero_Job\<lparr>Skills := [''Go'', ''Docker''], URL := ''a''\<rparr>]\<rparr> zero_SearchFilters =
       Search [''Docker'', ''Go''] []
         \<lparr>jobs = [zero_Job\<lparr>Skills := [''Go'', ''Docker''], URL := ''a''\<rparr>]\<rparr> zero_SearchFilters"
    with e e' show False by simp
  qed
  with e e' show ?thesis
    unfolding example_filtered example_skillCounts example_companyCounts
    using example_orders by blast
qed

theorem Search_deterministic_up_to_ties_witness:
  "range_order (skillCounts (foldl analytics_step init_acc (filteredJobs_of
       \<lparr>jobs = [zero_Job\<lparr>Skills := [''Go'', ''Docker''], URL := ''a''\<rparr>]\<rparr> zero_SearchFilters)))
     [''Go'', ''Docker'']
   \<and> range_order (skillCounts (foldl analytics_step init_acc (filteredJobs_of
       \<lparr>jobs = [zero_Job\<lparr>Skills := [''Go'', ''Docker''], URL := ''a''\<rparr>]\<rparr> zero_SearchFilters)))
     [''Docker'', ''Go'']
   \<and> range_order (companyCounts (foldl analytics_step init_acc (filteredJobs_of
       \<lparr>jobs = [zero_Job\<lparr>Skills := [''Go'', ''Docker''], URL := ''a''\<rparr>]\<rparr> zero_SearchFilters)))
     []
   \<and> (\<exists>r r'.
        Search [''Go'', ''Docker''] []
          \<lparr>jobs = [zero_Job\<lparr>Skills := [''Go'', ''Docker''], URL := ''a''\<rparr>]\<rparr> zero_SearchFilters = Inr r
      \<and> Search [''Docker'', ''Go''] []
          \<lparr>jobs = [zero_Job\<lparr>Skills := [''Go'', ''Docker''], URL := ''a''\<rparr>]\<rparr> zero_SearchFilters = Inr r'
      \<and> rJobs r' = rJobs r \<and> rTotal r' = rTotal r
      \<and> map snd (TopSkills (rAnalytics r')) = map snd (TopSkills (rAnalytics r))
      \<and> sorted_wrt (\<lambda>a b. snd a \<ge> snd b) (TopSkills (rAnalytics r))
      \<and> distinct (map fst (TopSkills (rAnalytics r)))
      \<and> length (TopSkills (rAnalytics r)) = 2)"
proof -
  define s where "s = \<lparr>jobs = [zero_Job\<lparr>Skills := [''Go'', ''Docker''], URL := ''a''\<rparr>]\<rparr>"
  have o: "0 \<le> fOffset zero_SearchFilters" "0 \<le> fLimit zero_SearchFilters"
    "fOffset zero_SearchFilters + fLimit zero_SearchFilters < 2 ^ 63"
    by (simp_all add: zero_SearchFilters_def)
  obtain a where "GetAnalytics [''Go'', ''Docker''] [] (filteredJobs_of s zero_SearchFilters) = Inr a"
    using GetAnalytics_total by blast
  from Search_ok [OF o this] obtain r
    where r: "Search [''Go'', ''Docker''] [] s zero_SearchFilters = Inr r" by blast
  obtain a' where "GetAnalytics [''Docker'', ''Go''] [] (filteredJobs_of s zero_SearchFilters) = Inr a'"
    using GetAnalytics_total by blast
  from Search_ok [OF o this] obtain r'
    where r': "Search [''Docker'', ''Go''] [] s zero_SearchFilters = Inr r'" by blast
  have si: "range_order (skillCounts (foldl analytics_step init_acc
        (filteredJobs_of s zero_SearchFilters))) [''Go'', ''Docker'']"
    and si': "range_order (skillCounts (foldl analytics_step init_acc
        (filteredJobs_of s zero_SearchFilters))) [''Docker'', ''Go'']"
    and ci: "range_order (companyCounts (foldl analytics_step init_acc
        (filteredJobs_of s zero_SearchFilters))) []"
    unfolding s_def example_filtered example_skillCounts example_companyCounts
    by (rule example_orders)+
  note t = Search_deterministic_up_to_ties [OF r r' si si' ci ci]
  have c: "card (set (concat (map Skills (filteredJobs_of s zero_SearchFilters)))) = 2"
    unfolding s_def example_filtered by simp
  from t have "length (TopSkills (rAnalytics r)) =
      min 10 (card (set (concat (map Skills (filteredJobs_of s zero_SearchFilters)))))"
    by (elim conjE)
  then have l: "length (TopSkills (rAnalytics r)) = 2" unfolding c by simp
  from t have "rJobs r' = rJobs r" "rTotal r' = rTotal r"
    "map snd (TopSkills (rAnalytics r')) = map snd (TopSkills (rAnalytics r))"
    "sorted_wrt (\<lambda>a b. snd a \<ge> snd b) (TopSkills (rAnalytics r))"
    "distinct (map fst (TopSkills (rAnalytics r)))"
    by simp_all
  with l r r' si si' ci show ?thesis unfolding s_def by blast
qed

end
